theory Spec2Isabelle
  imports Complex_Main "HOL-Library.Multiset"
begin

section \<open>The JavaScript Date arithmetic the helpers rely on\<close>

text \<open>
  A \<open>Date\<close> object holds a time value: a whole number of milliseconds since
  1970-01-01T00:00:00Z, or NaN (an Invalid Date).  The time value is modelled as
  \<open>int option\<close>, \<open>None\<close> standing for NaN.  The day and year functions below are the
  ones of the ECMAScript specification (section "Time Values and Time Range"); all
  divisions are floor divisions, as there.
\<close>

type_synonym Date = "int option"

definition msPerDay :: int where
  "msPerDay = 24 * 60 * 60 * 1000"

definition Day :: "int \<Rightarrow> int" where
  "Day t = t div msPerDay"

definition TimeWithinDay :: "int \<Rightarrow> int" where
  "TimeWithinDay t = t mod msPerDay"

definition DaysInYear :: "int \<Rightarrow> int" where
  "DaysInYear y =
     (if y mod 4 \<noteq> 0 then 365
      else if y mod 100 \<noteq> 0 then 366
      else if y mod 400 \<noteq> 0 then 365
      else 366)"

definition DayFromYear :: "int \<Rightarrow> int" where
  "DayFromYear y =
     365 * (y - 1970) + (y - 1969) div 4 - (y - 1901) div 100 + (y - 1601) div 400"

text \<open>
  The specification defines the year of a day as the largest \<open>y\<close> with
  \<open>DayFromYear y \<le> day\<close>.  It is computed here from the mean year length
  (146097 days in 400 years), which is off by at most one year, and corrected.
\<close>

definition YearFromDay :: "int \<Rightarrow> int" where
  "YearFromDay dy =
     (let y0 = 1970 + (400 * dy) div 146097
      in if DayFromYear (y0 + 1) \<le> dy then y0 + 1
         else if DayFromYear y0 \<le> dy then y0
         else y0 - 1)"

definition YearFromTime :: "int \<Rightarrow> int" where
  "YearFromTime t = YearFromDay (Day t)"

definition InLeapYear :: "int \<Rightarrow> int" where
  "InLeapYear t = (if DaysInYear (YearFromTime t) = 366 then 1 else 0)"

definition DayWithinYear :: "int \<Rightarrow> int" where
  "DayWithinYear t = Day t - DayFromYear (YearFromTime t)"

text \<open>First day (within the year) of month \<open>m\<close> (0 = January), \<open>l\<close> the leap-day count.\<close>

definition monthStart :: "int \<Rightarrow> int \<Rightarrow> int" where
  "monthStart m l =
     (if m = 0 then 0 else if m = 1 then 31 else if m = 2 then 59 + l
      else if m = 3 then 90 + l else if m = 4 then 120 + l else if m = 5 then 151 + l
      else if m = 6 then 181 + l else if m = 7 then 212 + l else if m = 8 then 243 + l
      else if m = 9 then 273 + l else if m = 10 then 304 + l else 334 + l)"

definition MonthFromTime :: "int \<Rightarrow> int" where
  "MonthFromTime t =
     (let d = DayWithinYear t; l = InLeapYear t
      in if d < 31 then 0 else if d < 59 + l then 1 else if d < 90 + l then 2
         else if d < 120 + l then 3 else if d < 151 + l then 4 else if d < 181 + l then 5
         else if d < 212 + l then 6 else if d < 243 + l then 7 else if d < 273 + l then 8
         else if d < 304 + l then 9 else if d < 334 + l then 10 else 11)"

definition DateFromTime :: "int \<Rightarrow> int" where
  "DateFromTime t = DayWithinYear t - monthStart (MonthFromTime t) (InLeapYear t) + 1"

definition MakeDay :: "int \<Rightarrow> int \<Rightarrow> int \<Rightarrow> int" where
  "MakeDay year month date =
     (let ym = year + month div 12; mn = month mod 12
      in DayFromYear ym + monthStart mn (if DaysInYear ym = 366 then 1 else 0) + date - 1)"

definition MakeTime :: "int \<Rightarrow> int \<Rightarrow> int \<Rightarrow> int \<Rightarrow> int" where
  "MakeTime hour minute sec ms = hour * 3600000 + minute * 60000 + sec * 1000 + ms"

definition MakeDate :: "int \<Rightarrow> int \<Rightarrow> int" where
  "MakeDate dy tm = dy * msPerDay + tm"

definition TimeClip :: "int \<Rightarrow> Date" where
  "TimeClip t = (if \<bar>t\<bar> > 8640000000000000 then None else Some t)"

text \<open>
  The device's timezone is a fixed offset \<open>tza\<close> from UTC, in milliseconds
  (local time = UTC + \<open>tza\<close>); zones whose offset changes during the year are outside
  the model.
\<close>

definition LocalTime :: "int \<Rightarrow> int \<Rightarrow> int" where
  "LocalTime tza t = t + tza"

definition UTC_of_local :: "int \<Rightarrow> int \<Rightarrow> int" where
  "UTC_of_local tza t = t - tza"

text \<open>Getters answer NaN (\<open>None\<close>) on an Invalid Date.\<close>

definition getUTCFullYear :: "Date \<Rightarrow> int option" where
  "getUTCFullYear d = map_option YearFromTime d"

definition getUTCMonth :: "Date \<Rightarrow> int option" where
  "getUTCMonth d = map_option MonthFromTime d"

definition getUTCDate :: "Date \<Rightarrow> int option" where
  "getUTCDate d = map_option DateFromTime d"

definition getFullYear :: "int \<Rightarrow> Date \<Rightarrow> int option" where
  "getFullYear tza d = map_option (\<lambda>t. YearFromTime (LocalTime tza t)) d"

definition getMonth :: "int \<Rightarrow> Date \<Rightarrow> int option" where
  "getMonth tza d = map_option (\<lambda>t. MonthFromTime (LocalTime tza t)) d"

definition getDate :: "int \<Rightarrow> Date \<Rightarrow> int option" where
  "getDate tza d = map_option (\<lambda>t. DateFromTime (LocalTime tza t)) d"

text \<open>\<open>d.setUTCDate(dt)\<close>; the argument may be NaN, and then the date becomes invalid.\<close>

definition setUTCDate :: "Date \<Rightarrow> int option \<Rightarrow> Date" where
  "setUTCDate d dt =
     (case (d, dt) of
        (Some t, Some n) \<Rightarrow>
          TimeClip (MakeDate (MakeDay (YearFromTime t) (MonthFromTime t) n) (TimeWithinDay t))
      | _ \<Rightarrow> None)"

text \<open>\<open>d.setHours(hour, minute, 0, 0)\<close>, which works on the local time of \<open>d\<close>.\<close>

definition setHours :: "int \<Rightarrow> Date \<Rightarrow> int \<Rightarrow> int \<Rightarrow> Date" where
  "setHours tza d hour minute =
     (case d of
        None \<Rightarrow> None
      | Some t \<Rightarrow>
          TimeClip (UTC_of_local tza
            (MakeDate (Day (LocalTime tza t)) (MakeTime hour minute 0 0))))"

text \<open>
  Both \<open>Date.UTC(y, m, d)\<close> and the local constructor \<open>new Date(y, m, d)\<close> read a
  year from 0 to 99 as 1900 + year.
\<close>

definition fullYear :: "int \<Rightarrow> int" where
  "fullYear y = (if 0 \<le> y \<and> y \<le> 99 then 1900 + y else y)"

definition Date_UTC :: "int option \<Rightarrow> int option \<Rightarrow> int option \<Rightarrow> int option" where
  "Date_UTC y m d =
     (case (y, m, d) of
        (Some yv, Some mv, Some dv) \<Rightarrow>
          TimeClip (MakeDate (MakeDay (fullYear yv) mv dv) (MakeTime 0 0 0 0))
      | _ \<Rightarrow> None)"

definition newDateLocal :: "int \<Rightarrow> int \<Rightarrow> int \<Rightarrow> int \<Rightarrow> Date" where
  "newDateLocal tza y m d =
     TimeClip (UTC_of_local tza (MakeDate (MakeDay (fullYear y) m d) (MakeTime 0 0 0 0)))"

subsection \<open>Date text\<close>

text \<open>
  Strings are lists of ASCII characters.  \<open>matchYMD\<close> is the test
  \<^verbatim>\<open>/^\d{4}-\d{2}-\d{2}$/\<close> together with \<^verbatim>\<open>s.split("-").map(Number)\<close>.
\<close>

definition isDigit :: "char \<Rightarrow> bool" where
  "isDigit c = (c \<in> set ''0123456789'')"

definition digitValue :: "char \<Rightarrow> int" where
  "digitValue c = int (of_char c) - 48"

definition decimalValue :: "string \<Rightarrow> int" where
  "decimalValue s = foldl (\<lambda>a c. 10 * a + digitValue c) 0 s"

definition matchYMD :: "string \<Rightarrow> (int \<times> int \<times> int) option" where
  "matchYMD s =
     (if length s = 10 \<and> list_all isDigit (take 4 s) \<and> s ! 4 = CHR ''-''
         \<and> list_all isDigit (take 2 (drop 5 s)) \<and> s ! 7 = CHR ''-''
         \<and> list_all isDigit (drop 8 s)
      then Some (decimalValue (take 4 s), decimalValue (take 2 (drop 5 s)),
                 decimalValue (drop 8 s))
      else None)"

definition daysInMonth :: "int \<Rightarrow> int \<Rightarrow> int" where
  "daysInMonth y m =
     (if m = 2 then (if DaysInYear y = 366 then 29 else 28)
      else if m = 4 \<or> m = 6 \<or> m = 9 \<or> m = 11 then 30
      else 31)"

text \<open>
  \<open>new Date(dateStr + "T00:00:00Z")\<close>.  ECMAScript fixes the reading of the ISO format
  only: a text \<open>YYYY-MM-DD\<close> naming a day of the calendar gives that day's UTC
  midnight.  Any other text is read here as an Invalid Date (engines differ on it).
\<close>

definition newDateMidnightZ :: "string \<Rightarrow> Date" where
  "newDateMidnightZ dateStr =
     (case matchYMD dateStr of
        None \<Rightarrow> None
      | Some (y, m, d) \<Rightarrow>
          if 1 \<le> m \<and> m \<le> 12 \<and> 1 \<le> d \<and> d \<le> daysInMonth y m
          then TimeClip (MakeDate (MakeDay y (m - 1) d) (MakeTime 0 0 0 0))
          else None)"

section \<open>Helpers of the home and add screens\<close>

definition addDays :: "string \<Rightarrow> int \<Rightarrow> Date" where
  "addDays dateStr days =
     (let d = newDateMidnightZ dateStr
      in setUTCDate d (map_option (\<lambda>dt. dt + days) (getUTCDate d)))"

definition addDaysUTC :: "string \<Rightarrow> int \<Rightarrow> Date" where
  "addDaysUTC dateStr days =
     (let d = newDateMidnightZ dateStr
      in setUTCDate d (map_option (\<lambda>dt. dt + days) (getUTCDate d)))"

text \<open>
  \<open>daysBetweenUTC\<close> answers NaN (\<open>None\<close>) when either date is invalid.  Both
  \<open>Date.UTC\<close> values are UTC midnights, so the quotient is a whole number and
  \<open>Math.floor\<close> of it is the integer quotient.
\<close>

definition daysBetweenUTC :: "Date \<Rightarrow> Date \<Rightarrow> int option" where
  "daysBetweenUTC a b =
     (let a0 = Date_UTC (getUTCFullYear a) (getUTCMonth a) (getUTCDate a);
          b0 = Date_UTC (getUTCFullYear b) (getUTCMonth b) (getUTCDate b)
      in case (a0, b0) of
           (Some x, Some y) \<Rightarrow> Some ((y - x) div msPerDay)
         | _ \<Rightarrow> None)"

definition atLocalTime :: "int \<Rightarrow> Date \<Rightarrow> int \<Rightarrow> int \<Rightarrow> Date" where
  "atLocalTime tza dateUTC hour minute = setHours tza dateUTC hour minute"

definition isValidDateYYYYMMDD :: "int \<Rightarrow> string \<Rightarrow> bool" where
  "isValidDateYYYYMMDD tza s =
     (case matchYMD s of
        None \<Rightarrow> False
      | Some (y, m, d) \<Rightarrow>
          (let date = newDateLocal tza y (m - 1) d
           in getFullYear tza date = Some y \<and> getMonth tza date = Some (m - 1)
              \<and> getDate tza date = Some d))"


section \<open>Stored records\<close>

text \<open>
  The \<open>Visa\<close> type of the storage service.  Durations are whole numbers;
  \<open>createdAt\<close> holds the time value whose ISO text the source stores;
  \<open>notificationIds\<close> is an optional field.
\<close>

record Visa =
  visa_id :: string
  countryCode :: string
  visaLabel :: string
  entryDate :: string
  durationDays :: int
  createdAt :: int
  notificationIds :: "string list option"

record VisaCardItem = Visa +
  expiryISO :: string
  daysRemaining :: "int option"

text \<open>The exception of \<open>toISOString\<close> on an Invalid Date.\<close>

datatype error = RangeError

subsection \<open>Decimal text\<close>

definition digitChar :: "int \<Rightarrow> char" where
  "digitChar n = ''0123456789'' ! nat n"

function decimalDigits :: "int \<Rightarrow> string" where
  "decimalDigits n =
     (if n < 10 then [digitChar n] else decimalDigits (n div 10) @ [digitChar (n mod 10)])"
  by pat_completeness auto
termination
  by (relation "measure nat") auto

declare decimalDigits.simps [simp del]

definition decimalInt :: "int \<Rightarrow> string" where
  "decimalInt i = (if i < 0 then CHR ''-'' # decimalDigits (- i) else decimalDigits i)"

definition padStart0 :: "nat \<Rightarrow> string \<Rightarrow> string" where
  "padStart0 n s = replicate (n - length s) CHR ''0'' @ s"

text \<open>
  \<open>d.toISOString().slice(0, 10)\<close>: a RangeError on an Invalid Date; the year has four
  digits from 0 to 9999 and a sign with six digits otherwise.
\<close>

definition toISOString10 :: "Date \<Rightarrow> error + string" where
  "toISOString10 d =
     (case d of
        None \<Rightarrow> Inl RangeError
      | Some t \<Rightarrow>
          (let y = YearFromTime t;
               ys = (if 0 \<le> y \<and> y \<le> 9999 then padStart0 4 (decimalDigits y)
                     else (if y < 0 then ''-'' else ''+'') @ padStart0 6 (decimalDigits \<bar>y\<bar>))
           in Inr (take 10 (ys @ ''-'' @ padStart0 2 (decimalDigits (MonthFromTime t + 1))
                            @ ''-'' @ padStart0 2 (decimalDigits (DateFromTime t))))))"

section \<open>The home screen: countdown, status and list order\<close>

text \<open>\<open>now\<close> is the reading of the clock that \<open>new Date()\<close> takes.\<close>

definition computeCountdown :: "int \<Rightarrow> Visa \<Rightarrow> Date \<times> int option" where
  "computeCountdown now v =
     (let expiry = addDays (entryDate v) (durationDays v);
          today = Some now
      in (expiry, daysBetweenUTC today expiry))"

definition withCountdown :: "int \<Rightarrow> Visa \<Rightarrow> error + VisaCardItem" where
  "withCountdown now v =
     (case computeCountdown now v of
        (expiry, dr) \<Rightarrow>
          (case toISOString10 expiry of
             Inl e \<Rightarrow> Inl e
           | Inr txt \<Rightarrow> Inr (Visa.extend v \<lparr>expiryISO = txt, daysRemaining = dr\<rparr>)))"

text \<open>Comparisons with NaN are false, so a NaN count falls through to the last branch.\<close>

definition numLess :: "int option \<Rightarrow> int \<Rightarrow> bool" where
  "numLess x k = (case x of None \<Rightarrow> False | Some n \<Rightarrow> n < k)"

definition numLessEq :: "int option \<Rightarrow> int \<Rightarrow> bool" where
  "numLessEq x k = (case x of None \<Rightarrow> False | Some n \<Rightarrow> n \<le> k)"

definition rank :: "VisaCardItem \<Rightarrow> int" where
  "rank x =
     (if numLess (daysRemaining x) 0 then 0
      else if numLessEq (daysRemaining x) 6 then 1
      else if numLessEq (daysRemaining x) 14 then 2
      else 3)"

datatype Status = expired | urgent | warning | safe

definition status :: "int option \<Rightarrow> Status" where
  "status dr =
     (if numLess dr 0 then expired
      else if numLessEq dr 6 then urgent
      else if numLessEq dr 14 then warning
      else safe)"

text \<open>The comparator handed to \<open>sort\<close>; its result may be NaN.\<close>

definition compareItems :: "VisaCardItem \<Rightarrow> VisaCardItem \<Rightarrow> int option" where
  "compareItems a b =
     (let ra = rank a; rb = rank b
      in if ra \<noteq> rb then Some (ra - rb)
         else (case (daysRemaining a, daysRemaining b) of
                 (Some x, Some y) \<Rightarrow> Some (x - y)
               | _ \<Rightarrow> None))"

text \<open>
  \<open>Array.prototype.sort\<close> is stable and orders by the comparator, an element staying
  before another unless the comparator's result is positive (NaN counts as zero).  It is
  modelled by insertion from the right, which has both properties.
\<close>

fun insertBy :: "('a \<Rightarrow> 'a \<Rightarrow> int option) \<Rightarrow> 'a \<Rightarrow> 'a list \<Rightarrow> 'a list" where
  "insertBy cmp x [] = [x]"
| "insertBy cmp x (y # ys) =
     (if (case cmp x y of None \<Rightarrow> False | Some c \<Rightarrow> 0 < c)
      then y # insertBy cmp x ys
      else x # y # ys)"

definition sortBy :: "('a \<Rightarrow> 'a \<Rightarrow> int option) \<Rightarrow> 'a list \<Rightarrow> 'a list" where
  "sortBy cmp xs = foldr (insertBy cmp) xs []"

text \<open>\<open>visas.map(...)\<close> stops at the first element whose callback throws.\<close>

fun mapE :: "('a \<Rightarrow> error + 'b) \<Rightarrow> 'a list \<Rightarrow> error + 'b list" where
  "mapE f [] = Inr []"
| "mapE f (x # xs) =
     (case f x of
        Inl e \<Rightarrow> Inl e
      | Inr y \<Rightarrow> (case mapE f xs of Inl e \<Rightarrow> Inl e | Inr ys \<Rightarrow> Inr (y # ys)))"

definition data :: "int \<Rightarrow> Visa list \<Rightarrow> error + VisaCardItem list" where
  "data now visas =
     (case mapE (withCountdown now) visas of
        Inl e \<Rightarrow> Inl e
      | Inr items \<Rightarrow> Inr (sortBy compareItems items))"

text \<open>The spec's numbering of the bands, to compare \<open>rank\<close> with.\<close>

fun bandRank :: "Status \<Rightarrow> int" where
  "bandRank expired = 0"
| "bandRank urgent = 1"
| "bandRank warning = 2"
| "bandRank safe = 3"


text \<open>
  The spec's canonical ordering, to compare the rendered list with: \<open>a\<close> may stand
  before \<open>b\<close> when its band rank is lower, or the band ranks are equal and its
  \<open>daysRemaining\<close> is not greater.
\<close>

definition canonicalBefore :: "VisaCardItem \<Rightarrow> VisaCardItem \<Rightarrow> bool" where
  "canonicalBefore a b =
     (let ra = bandRank (status (daysRemaining a));
          rb = bandRank (status (daysRemaining b))
      in ra < rb \<or>
         (ra = rb \<and>
          (case (daysRemaining a, daysRemaining b) of
             (Some x, Some y) \<Rightarrow> x \<le> y
           | _ \<Rightarrow> False)))"

section \<open>The device and the world\<close>

text \<open>
  What the code cannot decide is collected in \<open>Device\<close>: the platform, the timezone,
  the answers of the permission dialog, the clock, and how the operating system and
  the store answer.  The \<open>k\<close>-th call of \<open>scheduleNotificationAsync\<close> resolves with
  an identifier (\<open>Inr\<close>) or rejects (\<open>Inl\<close>, the message of the error); a call of
  \<open>cancelScheduledNotificationAsync\<close> resolves or rejects likewise; \<open>storageWorks\<close>
  says whether the calls of the key-value store resolve.
\<close>

datatype PermissionStatus = granted | denied | undetermined

record ScheduleRequest =
  title :: string
  body :: string
  date :: Date

record Device =
  web :: bool
  tza :: int
  existingStatus :: PermissionStatus
  requestedStatus :: PermissionStatus
  clock :: "nat \<Rightarrow> int"
  scheduleAnswer :: "nat \<Rightarrow> string + string"
  cancelAnswer :: "string \<Rightarrow> string + unit"
  storageWorks :: bool

text \<open>
  A JavaScript number as \<open>clampInt\<close> meets it: finite (a rational; \<open>Math.floor\<close>
  and the comparisons are exact on it) or one of the three non-finite values.
\<close>

datatype number = Finite rat | NaN | PosInfinity | NegInfinity

text \<open>
  The four settings entries of the key-value store.  A missing key is \<open>None\<close>.  The
  hour and minute entries hold the number that \<open>Number(text)\<close> reads from the stored
  text.  The offsets entry holds the array read by \<open>JSON.parse\<close>, for arrays of whole
  numbers; a text that is empty, does not parse, is no array or has an element that is
  not a finite number counts as \<open>None\<close>, since the source keeps the defaults for all
  of them.
\<close>

record StoredSettings =
  notif_enabled :: "string option"
  reminder_hour :: "number option"
  reminder_min :: "number option"
  reminder_offsets_days :: "int list option"

text \<open>
  The world holds the store and records every request made to a collaborator:
  the schedule and cancel requests, the alerts shown, the routes navigated to, and the
  number of clock readings taken so far.
\<close>

record World =
  visas :: "Visa list"
  settings :: StoredSettings
  scheduled :: "ScheduleRequest list"
  cancelled :: "string list"
  alerts :: "(string \<times> string) list"
  routes :: "string list"
  reads :: nat

definition readClock :: "Device \<Rightarrow> World \<Rightarrow> int \<times> World" where
  "readClock dev w = (clock dev (reads w), w\<lparr>reads := Suc (reads w)\<rparr>)"

definition alert :: "string \<Rightarrow> string \<Rightarrow> World \<Rightarrow> World" where
  "alert ttl msg w = w\<lparr>alerts := alerts w @ [(ttl, msg)]\<rparr>"

section \<open>The settings service\<close>

record ReminderSettings =
  enabled :: bool
  hour :: int
  minute :: int
  offsetsDays :: "int list"

definition DEFAULTS :: ReminderSettings where
  "DEFAULTS = \<lparr>enabled = True, hour = 9, minute = 0, offsetsDays = [14, 7, 3, 0]\<rparr>"

definition clampInt :: "number \<Rightarrow> int \<Rightarrow> int \<Rightarrow> int \<Rightarrow> int" where
  "clampInt n mn mx fallback =
     (case n of
        Finite r \<Rightarrow>
          (let x = \<lfloor>r\<rfloor>
           in if x < mn then mn else if x > mx then mx else x)
      | _ \<Rightarrow> fallback)"

definition getReminderSettings :: "Device \<Rightarrow> World \<Rightarrow> string + ReminderSettings" where
  "getReminderSettings dev w =
     (if \<not> storageWorks dev then Inl ''storage error''
      else
        (let st = settings w;
             enabledV = (case notif_enabled st of
                           None \<Rightarrow> enabled DEFAULTS
                         | Some e \<Rightarrow> e = ''1'');
             hourV = (case reminder_hour st of
                        None \<Rightarrow> hour DEFAULTS
                      | Some h \<Rightarrow> clampInt h 0 23 (hour DEFAULTS));
             minuteV = (case reminder_min st of
                          None \<Rightarrow> minute DEFAULTS
                        | Some m \<Rightarrow> clampInt m 0 59 (minute DEFAULTS));
             offsetsV = (case reminder_offsets_days st of
                           None \<Rightarrow> offsetsDays DEFAULTS
                         | Some parsed \<Rightarrow> filter (\<lambda>x. x \<ge> 0 \<and> x \<le> 365) parsed)
         in Inr \<lparr>enabled = enabledV, hour = hourV, minute = minuteV, offsetsDays = offsetsV\<rparr>))"

section \<open>The notification service\<close>

definition ensureNotifPermission :: "Device \<Rightarrow> bool" where
  "ensureNotifPermission dev =
     (if web dev then False
      else (let existing = existingStatus dev;
                final = (if existing \<noteq> granted then requestedStatus dev else existing)
            in final = granted))"

text \<open>\<open>date <= now\<close> on a Date and a clock reading; false when the date is invalid.\<close>

definition dateLessEq :: "Date \<Rightarrow> int \<Rightarrow> bool" where
  "dateLessEq d now = (case d of None \<Rightarrow> False | Some t \<Rightarrow> t \<le> now)"

definition scheduleVisaReminder ::
  "Device \<Rightarrow> ScheduleRequest \<Rightarrow> World \<Rightarrow> (string + string option) \<times> World" where
  "scheduleVisaReminder dev params w =
     (if web dev then (Inr None, w)
      else (case readClock dev w of
              (now, w1) \<Rightarrow>
                if dateLessEq (date params) now then (Inr None, w1)
                else (let w2 = w1\<lparr>scheduled := scheduled w1 @ [params]\<rparr>
                      in case scheduleAnswer dev (length (scheduled w1)) of
                           Inl e \<Rightarrow> (Inl e, w2)
                         | Inr ident \<Rightarrow> (Inr (Some ident), w2))))"

text \<open>
  \<open>Promise.all(ids.map(cancel))\<close> issues every cancel request and rejects with the
  first rejection among them.
\<close>

fun firstRejection :: "(string + 'a) list \<Rightarrow> string option" where
  "firstRejection [] = None"
| "firstRejection (Inl e # rs) = Some e"
| "firstRejection (Inr v # rs) = firstRejection rs"

definition cancelScheduled :: "Device \<Rightarrow> string list \<Rightarrow> World \<Rightarrow> (string + unit) \<times> World" where
  "cancelScheduled dev ids w =
     (if web dev then (Inr (), w)
      else (let w1 = w\<lparr>cancelled := cancelled w @ ids\<rparr>
            in case firstRejection (map (cancelAnswer dev) ids) of
                 None \<Rightarrow> (Inr (), w1)
               | Some e \<Rightarrow> (Inl e, w1)))"

section \<open>The storage service\<close>

definition getVisas :: "Device \<Rightarrow> World \<Rightarrow> string + Visa list" where
  "getVisas dev w = (if storageWorks dev then Inr (visas w) else Inl ''storage error'')"

definition saveVisa :: "Device \<Rightarrow> Visa \<Rightarrow> World \<Rightarrow> (string + unit) \<times> World" where
  "saveVisa dev v w =
     (case getVisas dev w of
        Inl e \<Rightarrow> (Inl e, w)
      | Inr vs \<Rightarrow> (Inr (), w\<lparr>visas := vs @ [v]\<rparr>))"

definition deleteVisa :: "Device \<Rightarrow> string \<Rightarrow> World \<Rightarrow> (string + unit) \<times> World" where
  "deleteVisa dev ident w =
     (case getVisas dev w of
        Inl e \<Rightarrow> (Inl e, w)
      | Inr vs \<Rightarrow> (Inr (), w\<lparr>visas := filter (\<lambda>v. visa_id v \<noteq> ident) vs\<rparr>))"

section \<open>The add screen: saving a visa\<close>

text \<open>
  \<open>trim\<close> and \<open>toUpperCase\<close> on ASCII text: the white space removed is tab, line
  feed, vertical tab, form feed, carriage return and space, and the letters mapped are
  a to z.
\<close>

definition isWhiteSpace :: "char \<Rightarrow> bool" where
  "isWhiteSpace c = (c \<in> set [CHR 0x09, CHR 0x0A, CHR 0x0B, CHR 0x0C, CHR 0x0D, CHR '' ''])"

definition trim :: "string \<Rightarrow> string" where
  "trim s = rev (dropWhile isWhiteSpace (rev (dropWhile isWhiteSpace s)))"

definition upperChar :: "char \<Rightarrow> char" where
  "upperChar c =
     (case map_of (zip ''abcdefghijklmnopqrstuvwxyz'' ''ABCDEFGHIJKLMNOPQRSTUVWXYZ'') c of
        None \<Rightarrow> c
      | Some u \<Rightarrow> u)"

definition toUpperCase :: "string \<Rightarrow> string" where
  "toUpperCase s = map upperChar s"

text \<open>
  The state of the form.  \<open>durationDaysNumber\<close> is the number that
  \<open>Number(durationDays.trim())\<close> reads, for whole numbers; \<open>None\<close> when it is not
  finite.
\<close>

record AddVisaForm =
  countryCodeText :: string
  visaLabelText :: string
  entryDateText :: string
  durationDaysNumber :: "int option"

text \<open>The date the loop computes for the offset \<open>d\<close>: \<open>fireUTC\<close>, then \<open>fireLocal\<close>.\<close>

definition fireLocalOf :: "Device \<Rightarrow> Date \<Rightarrow> ReminderSettings \<Rightarrow> int \<Rightarrow> Date" where
  "fireLocalOf dev expiryUTC rs d =
     (let fireUTC = setUTCDate expiryUTC (map_option (\<lambda>x. x - d) (getUTCDate expiryUTC));
          fireLocal = atLocalTime (tza dev) fireUTC (hour rs) (minute rs)
      in fireLocal)"

text \<open>The loop over \<open>remindDays\<close>; an exception of a schedule call leaves it.\<close>

fun scheduleLoop ::
  "Device \<Rightarrow> string \<Rightarrow> Date \<Rightarrow> ReminderSettings \<Rightarrow> int list \<Rightarrow> string list \<Rightarrow> World
     \<Rightarrow> (string + string list) \<times> World" where
  "scheduleLoop dev cc expiryUTC rs [] scheduledIds w = (Inr scheduledIds, w)"
| "scheduleLoop dev cc expiryUTC rs (d # ds) scheduledIds w =
     (let fireLocal = fireLocalOf dev expiryUTC rs d;
          params = \<lparr>title = ''Visa reminder'',
                    body = (if d = 0 then ''Your '' @ cc @ '' visa expires today.''
                            else ''Your '' @ cc @ '' visa expires in '' @ decimalInt d @ '' day(s).''),
                    date = fireLocal\<rparr>
      in case scheduleVisaReminder dev params w of
           (Inl e, w1) \<Rightarrow> (Inl e, w1)
         | (Inr r, w1) \<Rightarrow>
             scheduleLoop dev cc expiryUTC rs ds
               (case r of
                  None \<Rightarrow> scheduledIds
                | Some ident \<Rightarrow> if ident \<noteq> [] then scheduledIds @ [ident] else scheduledIds)
               w1)"

text \<open>The body of the \<open>try\<close> block.\<close>

definition saveBody ::
  "Device \<Rightarrow> string \<Rightarrow> string \<Rightarrow> int \<Rightarrow> Visa \<Rightarrow> World \<Rightarrow> (string + unit) \<times> World" where
  "saveBody dev cc entry days visa w =
     (case (if \<not> web dev then
              (if ensureNotifPermission dev then
                 (case getReminderSettings dev w of
                    Inl e \<Rightarrow> (Inl e, w)
                  | Inr reminderSettings \<Rightarrow>
                      (case scheduleLoop dev cc (addDaysUTC entry days) reminderSettings
                              (offsetsDays reminderSettings) [] w of
                         (Inl e, w1) \<Rightarrow> (Inl e, w1)
                       | (Inr scheduledIds, w1) \<Rightarrow>
                           (Inr (visa\<lparr>notificationIds := Some scheduledIds\<rparr>), w1)))
               else (Inr visa, w))
            else (Inr visa, w)) of
        (Inl e, w1) \<Rightarrow> (Inl e, w1)
      | (Inr visa1, w1) \<Rightarrow>
          (case saveVisa dev visa1 w1 of
             (Inl e, w2) \<Rightarrow> (Inl e, w2)
           | (Inr u, w2) \<Rightarrow> (Inr (), w2\<lparr>routes := routes w2 @ [''/'']\<rparr>)))"

definition onSave :: "Device \<Rightarrow> AddVisaForm \<Rightarrow> World \<Rightarrow> World" where
  "onSave dev form w =
     (let cc = toUpperCase (trim (countryCodeText form));
          label = trim (visaLabelText form)
      in if length cc \<noteq> 2
         then alert ''Invalid country code'' ''Use a 2-letter code like VN, TH, JP.'' w
         else if label = []
         then alert ''Missing visa label'' ''Example: Tourist, Business, Student.'' w
         else if \<not> isValidDateYYYYMMDD (tza dev) (entryDateText form)
         then alert ''Invalid entry date'' ''Use format YYYY-MM-DD (example: 2026-01-14).'' w
         else
           (case durationDaysNumber form of
              None \<Rightarrow> alert ''Invalid duration'' ''Duration must be between 1 and 365 days.'' w
            | Some days \<Rightarrow>
                if days < 1 \<or> days > 365
                then alert ''Invalid duration'' ''Duration must be between 1 and 365 days.'' w
                else
                  (case readClock dev w of
                     (t0, w0) \<Rightarrow>
                       (case readClock dev w0 of
                          (t1, w1) \<Rightarrow>
                            (let visa = \<lparr>visa_id = ''visa_'' @ decimalInt t0,
                                          countryCode = cc,
                                          visaLabel = label,
                                          entryDate = entryDateText form,
                                          durationDays = days,
                                          createdAt = t1,
                                          notificationIds = Some []\<rparr>
                             in case saveBody dev cc (entryDateText form) days visa w1 of
                                  (Inl e, w2) \<Rightarrow> alert ''Save failed'' e w2
                                | (Inr u, w2) \<Rightarrow> w2)))))"

text \<open>The four checks \<open>onSave\<close> makes before it builds the record.\<close>

definition passesChecks :: "Device \<Rightarrow> AddVisaForm \<Rightarrow> bool" where
  "passesChecks dev form =
     (length (toUpperCase (trim (countryCodeText form))) = 2
      \<and> trim (visaLabelText form) \<noteq> []
      \<and> isValidDateYYYYMMDD (tza dev) (entryDateText form)
      \<and> (case durationDaysNumber form of None \<Rightarrow> False | Some days \<Rightarrow> 1 \<le> days \<and> days \<le> 365))"

text \<open>
  For stating what a save leaves behind.  \<open>dueOffsets\<close> are the offsets whose date
  is after the clock reading taken at their turn, the first turn reading the clock for
  the \<open>r\<close>-th time: the offsets for which a schedule call is made.  \<open>answeredHandles\<close>
  are the identifiers that the calls number \<open>n\<close> to \<open>n + m - 1\<close> resolve with, in
  the order of the calls, an empty identifier and a rejection giving none.
\<close>

definition dueOffsets :: "Device \<Rightarrow> Date \<Rightarrow> ReminderSettings \<Rightarrow> nat \<Rightarrow> int list \<Rightarrow> int list" where
  "dueOffsets dev expiryUTC rs r ds =
     map fst (filter (\<lambda>(d, k). \<not> dateLessEq (fireLocalOf dev expiryUTC rs d) (clock dev k))
                (zip ds [r ..< r + length ds]))"

definition keptHandle :: "string + string \<Rightarrow> string list" where
  "keptHandle a = (case a of Inl e \<Rightarrow> [] | Inr h \<Rightarrow> if h \<noteq> [] then [h] else [])"

definition answeredHandles :: "Device \<Rightarrow> nat \<Rightarrow> nat \<Rightarrow> string list" where
  "answeredHandles dev n m = concat (map (\<lambda>k. keptHandle (scheduleAnswer dev k)) [n ..< n + m])"

section \<open>The home screen: deleting a visa\<close>

text \<open>
  The handler of the dialog's Delete button.  It has no \<open>try\<close>: a rejection leaves
  it at once, and is its result here (\<open>Inl\<close>).  \<open>load\<close> reads the store again.
\<close>

definition onDelete :: "Device \<Rightarrow> VisaCardItem \<Rightarrow> World \<Rightarrow> (string + unit) \<times> World" where
  "onDelete dev item w =
     (case (case notificationIds item of
              None \<Rightarrow> (Inr (), w)
            | Some ids \<Rightarrow> if ids \<noteq> [] then cancelScheduled dev ids w else (Inr (), w)) of
        (Inl e, w1) \<Rightarrow> (Inl e, w1)
      | (Inr u, w1) \<Rightarrow>
          (case deleteVisa dev (visa_id item) w1 of
             (Inl e, w2) \<Rightarrow> (Inl e, w2)
           | (Inr u2, w2) \<Rightarrow>
               (case getVisas dev w2 of
                  Inl e \<Rightarrow> (Inl e, w2)
                | Inr vs \<Rightarrow> (Inr (), w2))))"


section \<open>Sample devices and inputs\<close>

definition steadyClock :: "int \<Rightarrow> nat \<Rightarrow> int" where
  "steadyClock t k = t"

definition resolveWithIndex :: "nat \<Rightarrow> string + string" where
  "resolveWithIndex k = Inr (''n'' @ decimalInt (int k))"

definition rejectAt :: "nat \<Rightarrow> nat \<Rightarrow> string + string" where
  "rejectAt n k = (if k = n then Inl ''boom'' else resolveWithIndex k)"

definition cancelResolves :: "string \<Rightarrow> string + unit" where
  "cancelResolves ident = Inr ()"

definition cancelRejects :: "string \<Rightarrow> string + unit" where
  "cancelRejects ident = Inl ''gone''"

text \<open>
  A phone in a zone without offset, permission granted, the clock standing at
  2026-01-01T00:00:00Z, every collaborator answering well.
\<close>

definition phone :: Device where
  "phone = \<lparr>web = False, tza = 0, existingStatus = granted, requestedStatus = granted,
            clock = steadyClock 1767225600000, scheduleAnswer = resolveWithIndex,
            cancelAnswer = cancelResolves, storageWorks = True\<rparr>"

text \<open>The same phone five hours west of UTC.\<close>

definition phoneWest :: Device where
  "phoneWest = phone\<lparr>tza := - 18000000\<rparr>"

text \<open>The same phone a year later, 2027-01-15T08:00:00Z.\<close>

definition phoneLate :: Device where
  "phoneLate = phone\<lparr>clock := steadyClock 1800000000000\<rparr>"

text \<open>
  The same phone on 2026-01-20T09:06:40Z, after the first of the four reminder dates,
  and a phone whose second schedule call resolves with an empty identifier.
\<close>

definition phoneMid :: Device where
  "phoneMid = phone\<lparr>clock := steadyClock 1768900000000\<rparr>"

definition emptyAt :: "nat \<Rightarrow> nat \<Rightarrow> string + string" where
  "emptyAt n k = (if k = n then Inr [] else resolveWithIndex k)"

definition phoneEmptyAnswer :: Device where
  "phoneEmptyAnswer = phone\<lparr>scheduleAnswer := emptyAt 1\<rparr>"

definition noSettings :: StoredSettings where
  "noSettings = \<lparr>notif_enabled = None, reminder_hour = None, reminder_min = None,
                 reminder_offsets_days = None\<rparr>"

definition emptyWorld :: World where
  "emptyWorld = \<lparr>visas = [], settings = noSettings, scheduled = [], cancelled = [],
                 alerts = [], routes = [], reads = 0\<rparr>"

definition touristForm :: AddVisaForm where
  "touristForm = \<lparr>countryCodeText = ''vn'', visaLabelText = ''Tourist'',
                  entryDateText = ''2026-01-01'', durationDaysNumber = Some 30\<rparr>"

text \<open>A stored record with three live handles, as the home screen lists it.\<close>

definition storedVisa :: Visa where
  "storedVisa = \<lparr>visa_id = ''visa_1'', countryCode = ''VN'', visaLabel = ''Tourist'',
                 entryDate = ''2026-01-01'', durationDays = 30, createdAt = 1767225600000,
                 notificationIds = Some [''a'', ''b'', ''c'']\<rparr>"

definition storedItem :: VisaCardItem where
  "storedItem = Visa.extend storedVisa \<lparr>expiryISO = ''2026-01-31'', daysRemaining = Some 30\<rparr>"

definition worldWithVisa :: World where
  "worldWithVisa = emptyWorld\<lparr>visas := [storedVisa]\<rparr>"

text \<open>
  Four stored records in the order they were added: two that expire on the same day,
  one that expires in three days and one that expired a year ago.
\<close>

definition listedVisas :: "Visa list" where
  "listedVisas =
     [storedVisa,
      storedVisa\<lparr>visa_id := ''visa_2'', durationDays := 3\<rparr>,
      storedVisa\<lparr>visa_id := ''visa_3'', countryCode := ''TH''\<rparr>,
      storedVisa\<lparr>visa_id := ''visa_4'', entryDate := ''2025-01-01''\<rparr>]"

section \<open>Status bands\<close>

text \<open>
  C7.  The status shown for a day count follows the bands: below 0 expired, 0 to 6
  urgent, 7 to 14 warning, above 14 safe; in particular at the boundaries -1, 0, 6, 7,
  14 and 15.  The \<open>rank\<close> used for sorting numbers the same bands 0 to 3.
\<close>

theorem status_bands:
  "(d < 0 \<longrightarrow> status (Some d) = expired)
   \<and> (0 \<le> d \<and> d \<le> 6 \<longrightarrow> status (Some d) = urgent)
   \<and> (7 \<le> d \<and> d \<le> 14 \<longrightarrow> status (Some d) = warning)
   \<and> (14 < d \<longrightarrow> status (Some d) = safe)
   \<and> status (Some (- 1)) = expired \<and> status (Some 0) = urgent
   \<and> status (Some 6) = urgent \<and> status (Some 7) = warning
   \<and> status (Some 14) = warning \<and> status (Some 15) = safe
   \<and> rank x = bandRank (status (daysRemaining x))"
  by (simp add: status_def rank_def numLess_def numLessEq_def)

theorem status_bands_witness:
  "(- 3 :: int) < 0 \<and> status (Some (- 3)) = expired
   \<and> (0 :: int) \<le> 3 \<and> (3 :: int) \<le> 6 \<and> status (Some 3) = urgent
   \<and> (7 :: int) \<le> 10 \<and> (10 :: int) \<le> 14 \<and> status (Some 10) = warning
   \<and> (14 :: int) < 20 \<and> status (Some 20) = safe"
  using status_bands [of "- 3"] status_bands [of 3] status_bands [of 10] status_bands [of 20]
  by simp

section \<open>Reading the reminder time\<close>

text \<open>
  C5, as stated, fails: a stored hour of 25 and a stored minute of 75 are read as
  23 and 59, not as the defaults 9 and 0.
\<close>

theorem stored_time_out_of_range_is_clamped:
  "getReminderSettings phone
     (emptyWorld\<lparr>settings := noSettings\<lparr>reminder_hour := Some (Finite 25),
                                          reminder_min := Some (Finite 75)\<rparr>\<rparr>)
   = Inr \<lparr>enabled = True, hour = 23, minute = 59, offsetsDays = [14, 7, 3, 0]\<rparr>"
  by (simp add: getReminderSettings_def phone_def emptyWorld_def noSettings_def
      clampInt_def DEFAULTS_def)

text \<open>
  C5, amended.  When the store answers, reading the settings gives the default hour 9
  and the default minute 0 for a stored value that is not finite, and the nearest
  bound for a finite stored value out of range: hour 0 below 0 and hour 23 above 23,
  minute 0 below 0 and minute 59 above 59.
\<close>

theorem getReminderSettings_time:
  assumes "storageWorks dev"
  shows "\<exists>rs. getReminderSettings dev w = Inr rs
    \<and> (reminder_hour (settings w) = Some NaN \<or> reminder_hour (settings w) = Some PosInfinity
         \<or> reminder_hour (settings w) = Some NegInfinity \<longrightarrow> hour rs = 9)
    \<and> (\<forall>r. reminder_hour (settings w) = Some (Finite r) \<and> r < 0 \<longrightarrow> hour rs = 0)
    \<and> (\<forall>r. reminder_hour (settings w) = Some (Finite r) \<and> 23 < r \<longrightarrow> hour rs = 23)
    \<and> (reminder_min (settings w) = Some NaN \<or> reminder_min (settings w) = Some PosInfinity
         \<or> reminder_min (settings w) = Some NegInfinity \<longrightarrow> minute rs = 0)
    \<and> (\<forall>r. reminder_min (settings w) = Some (Finite r) \<and> r < 0 \<longrightarrow> minute rs = 0)
    \<and> (\<forall>r. reminder_min (settings w) = Some (Finite r) \<and> 59 < r \<longrightarrow> minute rs = 59)"
proof -
  have lo: "\<lfloor>r\<rfloor> < 0" if "r < 0" for r :: rat
    using that by (simp add: floor_less_iff)
  have hi: "k \<le> \<lfloor>r\<rfloor>" if "of_int k < r" for r :: rat and k :: int
    using that by (simp add: le_floor_iff)
  have top: "clampInt (Finite r) 0 mx fb = mx" if "of_int mx < r" "0 \<le> mx" for r mx fb
  proof -
    define x where "x = \<lfloor>r\<rfloor>"
    have "mx \<le> x" unfolding x_def by (rule hi) (rule that)
    with that(2) show ?thesis
      unfolding clampInt_def Let_def number.case x_def [symmetric] by auto
  qed
  have h23: "clampInt (Finite r) 0 23 9 = 23" if "23 < r" for r
    using top [of 23 r 9] that by simp
  have h59: "clampInt (Finite r) 0 59 0 = 59" if "59 < r" for r
    using top [of 59 r 0] that by simp
  have l0: "clampInt (Finite r) 0 mx fb = 0" if "r < 0" for r mx fb
    using lo [OF that] by (simp add: clampInt_def Let_def)
  show ?thesis
    using assms
    by (auto simp: getReminderSettings_def Let_def DEFAULTS_def h23 h59 l0)
       (simp_all add: clampInt_def)
qed

theorem getReminderSettings_time_witness:
  "storageWorks phone
   \<and> (\<exists>rs. getReminderSettings phone
              (emptyWorld\<lparr>settings := noSettings\<lparr>reminder_hour := Some (Finite 25),
                                                   reminder_min := Some NaN\<rparr>\<rparr>) = Inr rs
            \<and> hour rs = 23 \<and> minute rs = 0)
   \<and> (\<exists>rs. getReminderSettings phone
              (emptyWorld\<lparr>settings := noSettings\<lparr>reminder_hour := Some PosInfinity,
                                                   reminder_min := Some (Finite 75)\<rparr>\<rparr>) = Inr rs
            \<and> hour rs = 9 \<and> minute rs = 59)
   \<and> (\<exists>rs. getReminderSettings phone
              (emptyWorld\<lparr>settings := noSettings\<lparr>reminder_hour := Some (Finite (- 1)),
                                                   reminder_min := Some (Finite (- 1))\<rparr>\<rparr>) = Inr rs
            \<and> hour rs = 0 \<and> minute rs = 0)"
proof -
  have sw: "storageWorks phone" by (simp add: phone_def)
  show ?thesis
    using sw
      getReminderSettings_time [OF sw, of "emptyWorld\<lparr>settings := noSettings\<lparr>reminder_hour := Some (Finite 25),
                                                   reminder_min := Some NaN\<rparr>\<rparr>"]
      getReminderSettings_time [OF sw, of "emptyWorld\<lparr>settings := noSettings\<lparr>reminder_hour := Some PosInfinity,
                                                   reminder_min := Some (Finite 75)\<rparr>\<rparr>"]
      getReminderSettings_time [OF sw, of "emptyWorld\<lparr>settings := noSettings\<lparr>reminder_hour := Some (Finite (- 1)),
                                                   reminder_min := Some (Finite (- 1))\<rparr>\<rparr>"]
    by (simp add: emptyWorld_def noSettings_def)
qed

section \<open>Saving a visa: the flag, the country code and the fire day\<close>

text \<open>
  C1.  The reminders-enabled flag is stored as off ("0"), and saving a visa on a
  phone with permission still schedules four reminders and stores their four handles:
  \<open>onSave\<close> reads the settings and never looks at the flag.
\<close>

theorem onSave_schedules_with_reminders_disabled:
  "map notificationIds
     (visas (onSave phone touristForm
        (emptyWorld\<lparr>settings := noSettings\<lparr>notif_enabled := Some ''0''\<rparr>\<rparr>)))
     = [Some [''n0'', ''n1'', ''n2'', ''n3'']]
   \<and> length (scheduled (onSave phone touristForm
        (emptyWorld\<lparr>settings := noSettings\<lparr>notif_enabled := Some ''0''\<rparr>\<rparr>))) = 4"
  by code_simp

text \<open>
  C6.  The country code "12" has length 2 and no letter; it passes the only check
  made, and the record is stored with it.
\<close>

theorem onSave_stores_country_code_without_letters:
  "map countryCode (visas (onSave phone (touristForm\<lparr>countryCodeText := ''12''\<rparr>) emptyWorld))
     = [''12'']
   \<and> alerts (onSave phone (touristForm\<lparr>countryCodeText := ''12''\<rparr>) emptyWorld) = []"
  by code_simp

text \<open>
  C2.  Five hours west of UTC, with offsets 14, 7, 3 and 0 at 09:00 and the expiry
  2026-01-31, the four requests are dated local 09:00 of January 16, 23, 27 and 30: each
  a day before the calendar day it is meant for.  \<open>setHours\<close> works on the local day
  of the UTC midnight, which is the evening before.
\<close>

theorem onSave_fires_a_day_early_west_of_UTC:
  "map date (scheduled (onSave phoneWest touristForm emptyWorld))
     = [Some (UTC_of_local (- 18000000) (MakeDate (MakeDay 2026 0 16) (MakeTime 9 0 0 0))),
        Some (UTC_of_local (- 18000000) (MakeDate (MakeDay 2026 0 23) (MakeTime 9 0 0 0))),
        Some (UTC_of_local (- 18000000) (MakeDate (MakeDay 2026 0 27) (MakeTime 9 0 0 0))),
        Some (UTC_of_local (- 18000000) (MakeDate (MakeDay 2026 0 30) (MakeTime 9 0 0 0)))]
   \<and> addDaysUTC ''2026-01-01'' 30 = Some (MakeDate (MakeDay 2026 0 31) 0)"
  by code_simp

section \<open>Saving a visa: the scheduling loop\<close>

lemma scheduleVisaReminder_past:
  "dateLessEq (date params) (clock dev (reads w)) \<Longrightarrow>
   scheduleVisaReminder dev params w = (Inr None, if web dev then w else w\<lparr>reads := Suc (reads w)\<rparr>)"
  by (simp add: scheduleVisaReminder_def readClock_def)

lemma scheduleLoop_skip:
  "dateLessEq (fireLocalOf dev e rs d) (clock dev (reads w)) \<Longrightarrow>
   scheduleLoop dev cc e rs (d # ds) ids w
     = scheduleLoop dev cc e rs ds ids (if web dev then w else w\<lparr>reads := Suc (reads w)\<rparr>)"
  by (simp add: scheduleVisaReminder_past Let_def)

lemma scheduleLoop_all_past:
  "\<not> web dev \<Longrightarrow> \<forall>d\<in>set ds. \<forall>k. dateLessEq (fireLocalOf dev e rs d) (clock dev k) \<Longrightarrow>
   scheduleLoop dev cc e rs ds ids w = (Inr ids, w\<lparr>reads := reads w + length ds\<rparr>)"
proof (induction ds arbitrary: w)
  case Nil
  then show ?case by simp
next
  case (Cons d ds)
  have "dateLessEq (fireLocalOf dev e rs d) (clock dev (reads w))"
    using Cons.prems(2) by simp
  then have "scheduleLoop dev cc e rs (d # ds) ids w
      = scheduleLoop dev cc e rs ds ids (w\<lparr>reads := Suc (reads w)\<rparr>)"
    using Cons.prems(1) by (simp only: scheduleLoop_skip if_False)
  also have "\<dots> = (Inr ids, (w\<lparr>reads := Suc (reads w)\<rparr>)\<lparr>reads := reads (w\<lparr>reads := Suc (reads w)\<rparr>) + length ds\<rparr>)"
    using Cons.prems by (intro Cons.IH) simp_all
  finally show ?case by simp
qed

lemma saveBody_no_permission:
  assumes "storageWorks dev" and "web dev \<or> \<not> ensureNotifPermission dev"
  shows "saveBody dev cc entry days visa w
     = (Inr (), w\<lparr>visas := visas w @ [visa], routes := routes w @ [''/'']\<rparr>)"
  using assms by (auto simp: saveBody_def saveVisa_def getVisas_def)

lemma saveBody_all_past:
  assumes sw: "storageWorks dev" and nw: "\<not> web dev" and perm: "ensureNotifPermission dev"
    and rs: "getReminderSettings dev w = Inr rs"
    and past: "\<forall>d\<in>set (offsetsDays rs). \<forall>k.
        dateLessEq (fireLocalOf dev (addDaysUTC entry days) rs d) (clock dev k)"
  shows "saveBody dev cc entry days visa w
     = (Inr (), w\<lparr>reads := reads w + length (offsetsDays rs),
                   visas := visas w @ [visa\<lparr>notificationIds := Some []\<rparr>],
                   routes := routes w @ [''/'']\<rparr>)"
  using sw nw perm rs scheduleLoop_all_past [OF nw past, of cc "[]" w]
  by (simp add: saveBody_def saveVisa_def getVisas_def)

lemma onSave_passes:
  assumes "passesChecks dev form"
  shows "\<exists>days. durationDaysNumber form = Some days \<and> 1 \<le> days \<and> days \<le> 365 \<and>
     onSave dev form w =
       (case saveBody dev (toUpperCase (trim (countryCodeText form))) (entryDateText form) days
               \<lparr>visa_id = ''visa_'' @ decimalInt (clock dev (reads w)),
                countryCode = toUpperCase (trim (countryCodeText form)),
                visaLabel = trim (visaLabelText form),
                entryDate = entryDateText form,
                durationDays = days,
                createdAt = clock dev (Suc (reads w)),
                notificationIds = Some []\<rparr>
               (w\<lparr>reads := Suc (Suc (reads w))\<rparr>) of
          (Inl e, w2) \<Rightarrow> alert ''Save failed'' e w2
        | (Inr u, w2) \<Rightarrow> w2)"
  using assms
  by (auto simp: passesChecks_def onSave_def Let_def readClock_def split: option.splits)

lemma getReminderSettings_reads [simp]:
  "getReminderSettings dev (w\<lparr>reads := n\<rparr>) = getReminderSettings dev w"
  by (simp add: getReminderSettings_def)

lemma passesChecks_phoneLate: "passesChecks phoneLate touristForm"
  by code_simp

text \<open>
  C10.  A reminder whose date is not after the clock reading is dropped without a
  trace: \<open>scheduleVisaReminder\<close> answers no handle and no error and issues no request,
  and the loop goes on with the handles it had.  So when the clock is past every computed
  date, saving the visa issues no schedule request, shows no alert, and stores the
  record with an empty handle list.
\<close>

theorem past_reminders_are_dropped:
  "(dateLessEq (date params) (clock dev (reads w)) \<longrightarrow>
      fst (scheduleVisaReminder dev params w) = Inr None
      \<and> scheduled (snd (scheduleVisaReminder dev params w)) = scheduled w)
   \<and> (dateLessEq (fireLocalOf dev e rs d) (clock dev (reads w)) \<longrightarrow>
      scheduleLoop dev cc e rs (d # ds) ids w
        = scheduleLoop dev cc e rs ds ids (if web dev then w else w\<lparr>reads := Suc (reads w)\<rparr>))
   \<and> (passesChecks dev form \<and> storageWorks dev
       \<and> getReminderSettings dev w = Inr rs' \<and> durationDaysNumber form = Some days
       \<and> (\<forall>d\<in>set (offsetsDays rs'). \<forall>k.
             dateLessEq (fireLocalOf dev (addDaysUTC (entryDateText form) days) rs' d) (clock dev k))
      \<longrightarrow> scheduled (onSave dev form w) = scheduled w
          \<and> alerts (onSave dev form w) = alerts w
          \<and> (\<exists>v. visas (onSave dev form w) = visas w @ [v] \<and> notificationIds v = Some []))"
proof (intro conjI impI)
  assume "dateLessEq (date params) (clock dev (reads w))"
  then show "fst (scheduleVisaReminder dev params w) = Inr None"
    and "scheduled (snd (scheduleVisaReminder dev params w)) = scheduled w"
    by (simp_all add: scheduleVisaReminder_past)
next
  assume "dateLessEq (fireLocalOf dev e rs d) (clock dev (reads w))"
  then show "scheduleLoop dev cc e rs (d # ds) ids w
        = scheduleLoop dev cc e rs ds ids (if web dev then w else w\<lparr>reads := Suc (reads w)\<rparr>)"
    by (rule scheduleLoop_skip)
next
  assume a: "passesChecks dev form \<and> storageWorks dev
       \<and> getReminderSettings dev w = Inr rs' \<and> durationDaysNumber form = Some days
       \<and> (\<forall>d\<in>set (offsetsDays rs'). \<forall>k.
             dateLessEq (fireLocalOf dev (addDaysUTC (entryDateText form) days) rs' d) (clock dev k))"
  obtain days' where d: "durationDaysNumber form = Some days'"
    and o: "onSave dev form w =
       (case saveBody dev (toUpperCase (trim (countryCodeText form))) (entryDateText form) days'
               \<lparr>visa_id = ''visa_'' @ decimalInt (clock dev (reads w)),
                countryCode = toUpperCase (trim (countryCodeText form)),
                visaLabel = trim (visaLabelText form),
                entryDate = entryDateText form,
                durationDays = days',
                createdAt = clock dev (Suc (reads w)),
                notificationIds = Some []\<rparr>
               (w\<lparr>reads := Suc (Suc (reads w))\<rparr>) of
          (Inl e, w2) \<Rightarrow> alert ''Save failed'' e w2
        | (Inr u, w2) \<Rightarrow> w2)"
    using onSave_passes [of dev form w] a by blast
  from a d have dd: "days' = days" by simp
  have res: "scheduled (onSave dev form w) = scheduled w
          \<and> alerts (onSave dev form w) = alerts w
          \<and> (\<exists>v. visas (onSave dev form w) = visas w @ [v] \<and> notificationIds v = Some [])"
  proof (cases "web dev \<or> \<not> ensureNotifPermission dev")
    case True
    from a have sw: "storageWorks dev" by simp
    show ?thesis
      unfolding o saveBody_no_permission [OF sw True] by simp
  next
    case False
    from a have sw: "storageWorks dev" by simp
    from False have nw: "\<not> web dev" and perm: "ensureNotifPermission dev" by simp_all
    from a have rs: "getReminderSettings dev (w\<lparr>reads := Suc (Suc (reads w))\<rparr>) = Inr rs'"
      by simp
    from a dd have past: "\<forall>d\<in>set (offsetsDays rs'). \<forall>k.
        dateLessEq (fireLocalOf dev (addDaysUTC (entryDateText form) days') rs' d) (clock dev k)"
      by simp
    show ?thesis
      unfolding o saveBody_all_past [OF sw nw perm rs past] by simp
  qed
  then show "scheduled (onSave dev form w) = scheduled w"
    and "alerts (onSave dev form w) = alerts w"
    and "\<exists>v. visas (onSave dev form w) = visas w @ [v] \<and> notificationIds v = Some []"
    by simp_all
qed

lemma phoneLate_past:
  "list_all (\<lambda>d. dateLessEq (fireLocalOf phoneLate (addDaysUTC ''2026-01-01'' 30)
      \<lparr>enabled = True, hour = 9, minute = 0, offsetsDays = [14, 7, 3, 0]\<rparr> d) 1800000000000)
     [14, 7, 3, 0]"
  by code_simp

lemma getReminderSettings_phoneLate:
  "getReminderSettings phoneLate emptyWorld
     = Inr \<lparr>enabled = True, hour = 9, minute = 0, offsetsDays = [14, 7, 3, 0]\<rparr>"
  by code_simp

theorem past_reminders_are_dropped_witness:
  "passesChecks phoneLate touristForm \<and> storageWorks phoneLate
   \<and> list_all (\<lambda>d. dateLessEq (fireLocalOf phoneLate (addDaysUTC ''2026-01-01'' 30)
        \<lparr>enabled = True, hour = 9, minute = 0, offsetsDays = [14, 7, 3, 0]\<rparr> d) 1800000000000)
       [14, 7, 3, 0]
   \<and> scheduled (onSave phoneLate touristForm emptyWorld) = []
   \<and> alerts (onSave phoneLate touristForm emptyWorld) = []
   \<and> (\<exists>v. visas (onSave phoneLate touristForm emptyWorld) = [v] \<and> notificationIds v = Some [])"
proof -
  have 1: "passesChecks phoneLate touristForm" by (rule passesChecks_phoneLate)
  have 2: "storageWorks phoneLate" by (simp add: phoneLate_def phone_def)
  have 3: "\<forall>d\<in>set (offsetsDays \<lparr>enabled = True, hour = 9, minute = 0, offsetsDays = [14, 7, 3, 0]\<rparr>). \<forall>k.
        dateLessEq (fireLocalOf phoneLate (addDaysUTC (entryDateText touristForm) 30)
          \<lparr>enabled = True, hour = 9, minute = 0, offsetsDays = [14, 7, 3, 0]\<rparr> d) (clock phoneLate k)"
    using phoneLate_past
    by (simp add: touristForm_def phoneLate_def phone_def steadyClock_def)
  have 4: "durationDaysNumber touristForm = Some 30" by (simp add: touristForm_def)
  have 5: "scheduled emptyWorld = [] \<and> alerts emptyWorld = [] \<and> visas emptyWorld = []"
    by (simp add: emptyWorld_def)
  show ?thesis
    using past_reminders_are_dropped [of _ phoneLate emptyWorld _
        "\<lparr>enabled = True, hour = 9, minute = 0, offsetsDays = [14, 7, 3, 0]\<rparr>" _ _ _ _ touristForm
        "\<lparr>enabled = True, hour = 9, minute = 0, offsetsDays = [14, 7, 3, 0]\<rparr>" 30]
      1 2 3 4 5 getReminderSettings_phoneLate phoneLate_past
    by simp
qed

section \<open>Saving a visa: failures of scheduling\<close>

text \<open>
  C4, as stated, fails: the second schedule call rejects, the exception leaves the
  loop, the record is not stored and the alert "Save failed" is shown (the first
  reminder stays scheduled).
\<close>

theorem onSave_aborts_when_a_schedule_call_rejects:
  "passesChecks (phone\<lparr>scheduleAnswer := rejectAt 1\<rparr>) touristForm
   \<and> visas (onSave (phone\<lparr>scheduleAnswer := rejectAt 1\<rparr>) touristForm emptyWorld) = []
   \<and> alerts (onSave (phone\<lparr>scheduleAnswer := rejectAt 1\<rparr>) touristForm emptyWorld)
       = [(''Save failed'', ''boom'')]
   \<and> length (scheduled (onSave (phone\<lparr>scheduleAnswer := rejectAt 1\<rparr>) touristForm emptyWorld)) = 2"
  by code_simp

subsection \<open>The calls made and the handles kept\<close>

lemma dueOffsets_Nil [simp]: "dueOffsets dev e rs r [] = []"
  by (simp add: dueOffsets_def)

lemma upt_shift: "[r ..< r + Suc n] = r # [Suc r ..< Suc r + n]"
  by (subst upt_rec) simp

lemma dueOffsets_Cons:
  "dueOffsets dev e rs r (d # ds) =
     (if dateLessEq (fireLocalOf dev e rs d) (clock dev r) then dueOffsets dev e rs (Suc r) ds
      else d # dueOffsets dev e rs (Suc r) ds)"
proof -
  have "zip (d # ds) [r ..< r + length (d # ds)] = (d, r) # zip ds [Suc r ..< Suc r + length ds]"
    by (simp only: length_Cons upt_shift zip_Cons_Cons)
  then show ?thesis
    unfolding dueOffsets_def by simp
qed

lemma answeredHandles_0 [simp]: "answeredHandles dev n 0 = []"
  by (simp add: answeredHandles_def)

lemma answeredHandles_Suc:
  "answeredHandles dev n (Suc m) = keptHandle (scheduleAnswer dev n) @ answeredHandles dev (Suc n) m"
  unfolding answeredHandles_def upt_shift by simp

lemma scheduleVisaReminder_due:
  assumes "\<not> web dev" and "\<not> dateLessEq (date params) (clock dev (reads w))"
    and "scheduleAnswer dev (length (scheduled w)) = Inr h"
  shows "scheduleVisaReminder dev params w
     = (Inr (Some h), w\<lparr>reads := Suc (reads w), scheduled := scheduled w @ [params]\<rparr>)"
  using assms by (simp add: scheduleVisaReminder_def readClock_def Let_def)

lemma scheduleLoop_exact:
  assumes nw: "\<not> web dev"
  shows "(\<forall>k. length (scheduled w) \<le> k
            \<and> k < length (scheduled w) + length (dueOffsets dev e rs (reads w) ds)
          \<longrightarrow> (\<exists>h. scheduleAnswer dev k = Inr h)) \<Longrightarrow>
     \<exists>w'. scheduleLoop dev cc e rs ds ids w
            = (Inr (ids @ answeredHandles dev (length (scheduled w))
                            (length (dueOffsets dev e rs (reads w) ds))), w')
       \<and> map date (scheduled w')
           = map date (scheduled w) @ map (fireLocalOf dev e rs) (dueOffsets dev e rs (reads w) ds)
       \<and> visas w' = visas w \<and> settings w' = settings w \<and> alerts w' = alerts w
       \<and> routes w' = routes w \<and> cancelled w' = cancelled w"
proof (induction ds arbitrary: ids w)
  case Nil
  show ?case by simp
next
  case (Cons d ds)
  define n where "n = length (scheduled w)"
  define r where "r = reads w"
  show ?case
  proof (cases "dateLessEq (fireLocalOf dev e rs d) (clock dev (reads w))")
    case True
    define w1 where "w1 = w\<lparr>reads := Suc (reads w)\<rparr>"
    have step: "scheduleLoop dev cc e rs (d # ds) ids w = scheduleLoop dev cc e rs ds ids w1"
      using scheduleLoop_skip [OF True, of cc ds ids] nw by (simp add: w1_def)
    have due: "dueOffsets dev e rs (reads w) (d # ds) = dueOffsets dev e rs (reads w1) ds"
      using True by (simp add: dueOffsets_Cons w1_def)
    have pre: "\<forall>k. length (scheduled w1) \<le> k
            \<and> k < length (scheduled w1) + length (dueOffsets dev e rs (reads w1) ds)
          \<longrightarrow> (\<exists>h. scheduleAnswer dev k = Inr h)"
      using Cons.prems unfolding due by (simp add: w1_def)
    obtain w' where "scheduleLoop dev cc e rs ds ids w1
            = (Inr (ids @ answeredHandles dev (length (scheduled w1))
                            (length (dueOffsets dev e rs (reads w1) ds))), w')"
       and "map date (scheduled w')
           = map date (scheduled w1) @ map (fireLocalOf dev e rs) (dueOffsets dev e rs (reads w1) ds)"
       and "visas w' = visas w1" "settings w' = settings w1" "alerts w' = alerts w1"
         "routes w' = routes w1" "cancelled w' = cancelled w1"
      using Cons.IH [OF pre, of ids] by blast
    then show ?thesis
      unfolding step due by (intro exI [of _ w']) (simp add: w1_def)
  next
    case False
    define p where "p = \<lparr>title = ''Visa reminder'',
                    body = (if d = 0 then ''Your '' @ cc @ '' visa expires today.''
                            else ''Your '' @ cc @ '' visa expires in '' @ decimalInt d @ '' day(s).''),
                    date = fireLocalOf dev e rs d\<rparr>"
    define w1 where "w1 = w\<lparr>reads := Suc (reads w), scheduled := scheduled w @ [p]\<rparr>"
    have due: "dueOffsets dev e rs (reads w) (d # ds) = d # dueOffsets dev e rs (reads w1) ds"
      using False by (simp add: dueOffsets_Cons w1_def)
    obtain h where h: "scheduleAnswer dev (length (scheduled w)) = Inr h"
      using Cons.prems unfolding due by fastforce
    have pd: "\<not> dateLessEq (date p) (clock dev (reads w))"
      using False by (simp add: p_def)
    have call: "scheduleVisaReminder dev p w = (Inr (Some h), w1)"
      unfolding w1_def by (rule scheduleVisaReminder_due [OF nw pd h])
    have step: "scheduleLoop dev cc e rs (d # ds) ids w
        = scheduleLoop dev cc e rs ds (ids @ keptHandle (Inr h)) w1"
      using call by (simp add: Let_def p_def [symmetric] keptHandle_def)
    have pre: "\<forall>k. length (scheduled w1) \<le> k
            \<and> k < length (scheduled w1) + length (dueOffsets dev e rs (reads w1) ds)
          \<longrightarrow> (\<exists>h. scheduleAnswer dev k = Inr h)"
      using Cons.prems unfolding due by (simp add: w1_def)
    obtain w' where l: "scheduleLoop dev cc e rs ds (ids @ keptHandle (Inr h)) w1
            = (Inr ((ids @ keptHandle (Inr h)) @ answeredHandles dev (length (scheduled w1))
                            (length (dueOffsets dev e rs (reads w1) ds))), w')"
       and fr: "map date (scheduled w')
           = map date (scheduled w1) @ map (fireLocalOf dev e rs) (dueOffsets dev e rs (reads w1) ds)"
         "visas w' = visas w1" "settings w' = settings w1" "alerts w' = alerts w1"
         "routes w' = routes w1" "cancelled w' = cancelled w1"
      using Cons.IH [OF pre, of "ids @ keptHandle (Inr h)"] by blast
    have ah: "answeredHandles dev (length (scheduled w))
                 (length (dueOffsets dev e rs (reads w) (d # ds)))
        = keptHandle (Inr h) @ answeredHandles dev (length (scheduled w1))
                 (length (dueOffsets dev e rs (reads w1) ds))"
      unfolding due by (simp add: answeredHandles_Suc h w1_def)
    show ?thesis
      unfolding step l ah
      by (intro exI [of _ w']) (simp add: fr due, simp add: w1_def p_def)
  qed
qed


lemma saveBody_exact:
  assumes sw: "storageWorks dev" and nw: "\<not> web dev" and perm: "ensureNotifPermission dev"
    and rs: "getReminderSettings dev w = Inr rs"
    and res: "\<forall>k. length (scheduled w) \<le> k
            \<and> k < length (scheduled w)
                  + length (dueOffsets dev (addDaysUTC entry days) rs (reads w) (offsetsDays rs))
          \<longrightarrow> (\<exists>h. scheduleAnswer dev k = Inr h)"
  shows "\<exists>w'. saveBody dev cc entry days visa w = (Inr (), w')
     \<and> visas w' = visas w @ [visa\<lparr>notificationIds :=
          Some (answeredHandles dev (length (scheduled w))
            (length (dueOffsets dev (addDaysUTC entry days) rs (reads w) (offsetsDays rs))))\<rparr>]
     \<and> map date (scheduled w') = map date (scheduled w)
          @ map (fireLocalOf dev (addDaysUTC entry days) rs)
              (dueOffsets dev (addDaysUTC entry days) rs (reads w) (offsetsDays rs))
     \<and> alerts w' = alerts w \<and> routes w' = routes w @ [''/'']"
proof -
  define hs where "hs = answeredHandles dev (length (scheduled w))
            (length (dueOffsets dev (addDaysUTC entry days) rs (reads w) (offsetsDays rs)))"
  obtain w1 where l: "scheduleLoop dev cc (addDaysUTC entry days) rs (offsetsDays rs) [] w
        = (Inr ([] @ hs), w1)"
     and sch: "map date (scheduled w1) = map date (scheduled w)
          @ map (fireLocalOf dev (addDaysUTC entry days) rs)
              (dueOffsets dev (addDaysUTC entry days) rs (reads w) (offsetsDays rs))"
     and fr: "visas w1 = visas w" "alerts w1 = alerts w" "routes w1 = routes w"
    using scheduleLoop_exact [OF nw res, of cc "[]"] unfolding hs_def by blast
  have "saveBody dev cc entry days visa w
      = (Inr (), w1\<lparr>visas := visas w1 @ [visa\<lparr>notificationIds := Some hs\<rparr>],
                     routes := routes w1 @ [''/'']\<rparr>)"
    using sw nw perm rs l by (simp add: saveBody_def saveVisa_def getVisas_def)
  with sch fr show ?thesis
    unfolding hs_def [symmetric]
    by (intro exI [of _ "w1\<lparr>visas := visas w1 @ [visa\<lparr>notificationIds := Some hs\<rparr>],
                     routes := routes w1 @ [''/'']\<rparr>"]) simp
qed

lemma length_keptHandle: "length (keptHandle a) \<le> 1"
  by (simp add: keptHandle_def split: sum.split)

lemma length_answeredHandles: "length (answeredHandles dev n m) \<le> m"
proof (induction m arbitrary: n)
  case 0
  show ?case by simp
next
  case (Suc m)
  show ?case
    using Suc [of "Suc n"] length_keptHandle [of "scheduleAnswer dev n"]
    by (simp add: answeredHandles_Suc)
qed

lemma length_dueOffsets: "length (dueOffsets dev e rs r ds) \<le> length ds"
proof -
  have "length (dueOffsets dev e rs r ds) \<le> length (zip ds [r ..< r + length ds])"
    unfolding dueOffsets_def length_map by (rule length_filter_le)
  then show ?thesis by simp
qed

lemma set_answeredHandles:
  "i \<in> set (answeredHandles dev n m) \<Longrightarrow> i \<noteq> [] \<and> (\<exists>k. scheduleAnswer dev k = Inr i)"
  by (auto simp: answeredHandles_def keptHandle_def split: sum.splits if_splits)

text \<open>
  C4, amended.  When the input passes the checks and the store answers, the record is
  stored and no alert is shown if permission is denied (or the platform is web) or if
  none of the schedule calls made rejects.  In the first case the stored record carries
  no handle and no call is made.  In the second a call is made for exactly the offsets
  whose date is after the clock reading at their turn, and the record carries exactly
  the non-empty identifiers these calls resolved with, in the order of the calls: none,
  some or all of the offsets.
\<close>

theorem onSave_stores_record_when_no_call_rejects:
  assumes "passesChecks dev form" and "storageWorks dev"
    and "getReminderSettings dev w = Inr rs" and "durationDaysNumber form = Some days"
    and "due = dueOffsets dev (addDaysUTC (entryDateText form) days) rs (reads w + 2) (offsetsDays rs)"
    and "web dev \<or> \<not> ensureNotifPermission dev
         \<or> (\<forall>k. length (scheduled w) \<le> k \<and> k < length (scheduled w) + length due
                \<longrightarrow> (\<exists>h. scheduleAnswer dev k = Inr h))"
  shows "\<exists>v ids. visas (onSave dev form w) = visas w @ [v]
     \<and> notificationIds v = Some ids
     \<and> ids = (if web dev \<or> \<not> ensureNotifPermission dev then []
              else answeredHandles dev (length (scheduled w)) (length due))
     \<and> map date (scheduled (onSave dev form w))
         = map date (scheduled w)
           @ (if web dev \<or> \<not> ensureNotifPermission dev then []
              else map (fireLocalOf dev (addDaysUTC (entryDateText form) days) rs) due)
     \<and> countryCode v = toUpperCase (trim (countryCodeText form))
     \<and> visaLabel v = trim (visaLabelText form)
     \<and> entryDate v = entryDateText form
     \<and> durationDays v = days
     \<and> alerts (onSave dev form w) = alerts w
     \<and> routes (onSave dev form w) = routes w @ [''/'']
     \<and> length ids \<le> length (offsetsDays rs)
     \<and> (\<forall>i\<in>set ids. i \<noteq> [] \<and> (\<exists>k. scheduleAnswer dev k = Inr i))"
proof -
  define cc where "cc = toUpperCase (trim (countryCodeText form))"
  obtain days' where d: "durationDaysNumber form = Some days'"
    and o: "onSave dev form w =
       (case saveBody dev cc (entryDateText form) days'
               \<lparr>visa_id = ''visa_'' @ decimalInt (clock dev (reads w)),
                countryCode = cc,
                visaLabel = trim (visaLabelText form),
                entryDate = entryDateText form,
                durationDays = days',
                createdAt = clock dev (Suc (reads w)),
                notificationIds = Some []\<rparr>
               (w\<lparr>reads := Suc (Suc (reads w))\<rparr>) of
          (Inl e, w2) \<Rightarrow> alert ''Save failed'' e w2
        | (Inr u, w2) \<Rightarrow> w2)"
    using onSave_passes [OF assms(1), of w] unfolding cc_def by blast
  from d assms(4) have dd: "days' = days" by simp
  define visa where "visa = \<lparr>visa_id = ''visa_'' @ decimalInt (clock dev (reads w)),
                countryCode = cc,
                visaLabel = trim (visaLabelText form),
                entryDate = entryDateText form,
                durationDays = days,
                createdAt = clock dev (Suc (reads w)),
                notificationIds = Some []\<rparr>"
  define w1 where "w1 = w\<lparr>reads := Suc (Suc (reads w))\<rparr>"
  have o': "onSave dev form w =
       (case saveBody dev cc (entryDateText form) days visa w1 of
          (Inl e, w2) \<Rightarrow> alert ''Save failed'' e w2
        | (Inr u, w2) \<Rightarrow> w2)"
    unfolding o dd visa_def w1_def ..
  show ?thesis
  proof (cases "web dev \<or> \<not> ensureNotifPermission dev")
    case True
    have sb: "saveBody dev cc (entryDateText form) days visa w1
        = (Inr (), w1\<lparr>visas := visas w1 @ [visa], routes := routes w1 @ [''/'']\<rparr>)"
      by (rule saveBody_no_permission [OF assms(2) True])
    have res: "onSave dev form w
        = w1\<lparr>visas := visas w1 @ [visa], routes := routes w1 @ [''/'']\<rparr>"
      by (simp add: o' sb)
    show ?thesis
      by (rule exI [of _ visa], rule exI [of _ "[]"])
         (use True in \<open>simp add: res visa_def w1_def cc_def\<close>)
  next
    case False
    then have nw: "\<not> web dev" and perm: "ensureNotifPermission dev" by simp_all
    have due1: "due = dueOffsets dev (addDaysUTC (entryDateText form) days) rs (reads w1)
        (offsetsDays rs)"
      using assms(5) by (simp add: w1_def)
    have rs1: "getReminderSettings dev w1 = Inr rs"
      using assms(3) by (simp add: w1_def)
    have pre: "\<forall>k. length (scheduled w1) \<le> k
            \<and> k < length (scheduled w1)
                  + length (dueOffsets dev (addDaysUTC (entryDateText form) days) rs (reads w1)
                      (offsetsDays rs))
          \<longrightarrow> (\<exists>h. scheduleAnswer dev k = Inr h)"
      using assms(6) False unfolding due1 [symmetric] by (simp add: w1_def)
    define ids where "ids = answeredHandles dev (length (scheduled w)) (length due)"
    obtain w2 where sb: "saveBody dev cc (entryDateText form) days visa w1 = (Inr (), w2)"
      and v: "visas w2 = visas w1 @ [visa\<lparr>notificationIds := Some ids\<rparr>]"
      and sch: "map date (scheduled w2) = map date (scheduled w1)
          @ map (fireLocalOf dev (addDaysUTC (entryDateText form) days) rs) due"
      and fr: "alerts w2 = alerts w1" "routes w2 = routes w1 @ [''/'']"
      using saveBody_exact [OF assms(2) nw perm rs1 pre, of cc visa]
      unfolding due1 [symmetric] ids_def by (auto simp: w1_def)
    have res: "onSave dev form w = w2"
      by (simp add: o' sb)
    have len: "length ids \<le> length (offsetsDays rs)"
      using length_answeredHandles [of dev "length (scheduled w)" "length due"]
        length_dueOffsets [of dev "addDaysUTC (entryDateText form) days" rs "reads w + 2" "offsetsDays rs"]
      unfolding ids_def assms(5) by linarith
    have mem: "\<forall>i\<in>set ids. i \<noteq> [] \<and> (\<exists>k. scheduleAnswer dev k = Inr i)"
      unfolding ids_def using set_answeredHandles by blast
    show ?thesis
      by (rule exI [of _ "visa\<lparr>notificationIds := Some ids\<rparr>"], rule exI [of _ ids])
         (use False v sch fr len mem in \<open>simp add: res visa_def w1_def cc_def ids_def\<close>)
  qed
qed


lemma passesChecks_samples:
  "passesChecks phone touristForm \<and> passesChecks phoneMid touristForm
   \<and> passesChecks phoneEmptyAnswer touristForm
   \<and> passesChecks (phone\<lparr>existingStatus := denied, requestedStatus := denied\<rparr>) touristForm"
  by code_simp

lemma settings_samples:
  "getReminderSettings phone emptyWorld = Inr DEFAULTS
   \<and> getReminderSettings phoneMid emptyWorld = Inr DEFAULTS
   \<and> getReminderSettings phoneEmptyAnswer emptyWorld = Inr DEFAULTS
   \<and> getReminderSettings (phone\<lparr>existingStatus := denied, requestedStatus := denied\<rparr>)
        emptyWorld = Inr DEFAULTS"
  by code_simp

lemma due_samples:
  "dueOffsets phone (addDaysUTC ''2026-01-01'' 30) DEFAULTS (Suc (Suc 0)) [14, 7, 3, 0] = [14, 7, 3, 0]
   \<and> dueOffsets phoneMid (addDaysUTC ''2026-01-01'' 30) DEFAULTS (Suc (Suc 0)) [14, 7, 3, 0] = [7, 3, 0]
   \<and> dueOffsets phoneEmptyAnswer (addDaysUTC ''2026-01-01'' 30) DEFAULTS (Suc (Suc 0)) [14, 7, 3, 0]
       = [14, 7, 3, 0]"
  by code_simp

lemma handles_samples:
  "answeredHandles phone 0 (Suc (Suc (Suc (Suc 0)))) = [''n0'', ''n1'', ''n2'', ''n3'']
   \<and> answeredHandles phoneMid 0 (Suc (Suc (Suc 0))) = [''n0'', ''n1'', ''n2'']
   \<and> answeredHandles phoneEmptyAnswer 0 (Suc (Suc (Suc (Suc 0)))) = [''n0'', ''n2'', ''n3'']"
  by code_simp

theorem onSave_stores_record_when_no_call_rejects_witness:
  "passesChecks phone touristForm \<and> storageWorks phone
   \<and> (\<forall>k. \<exists>h. scheduleAnswer phone k = Inr h)
   \<and> map notificationIds (visas (onSave phone touristForm emptyWorld))
       = [Some [''n0'', ''n1'', ''n2'', ''n3'']]
   \<and> alerts (onSave phone touristForm emptyWorld) = []
   \<and> map notificationIds (visas (onSave phoneMid touristForm emptyWorld))
       = [Some [''n0'', ''n1'', ''n2'']]
   \<and> alerts (onSave phoneMid touristForm emptyWorld) = []
   \<and> map notificationIds (visas (onSave phoneEmptyAnswer touristForm emptyWorld))
       = [Some [''n0'', ''n2'', ''n3'']]
   \<and> length (scheduled (onSave phoneEmptyAnswer touristForm emptyWorld)) = 4
   \<and> alerts (onSave phoneEmptyAnswer touristForm emptyWorld) = []
   \<and> ensureNotifPermission (phone\<lparr>existingStatus := denied, requestedStatus := denied\<rparr>) = False
   \<and> map notificationIds
        (visas (onSave (phone\<lparr>existingStatus := denied, requestedStatus := denied\<rparr>)
                  touristForm emptyWorld)) = [Some []]
   \<and> alerts (onSave (phone\<lparr>existingStatus := denied, requestedStatus := denied\<rparr>)
                  touristForm emptyWorld) = []"
proof -
  define pd where "pd = phone\<lparr>existingStatus := denied, requestedStatus := denied\<rparr>"
  have sw: "storageWorks phone" "storageWorks phoneMid" "storageWorks phoneEmptyAnswer"
      "storageWorks pd"
    by (simp_all add: phone_def phoneMid_def phoneEmptyAnswer_def pd_def)
  have du: "durationDaysNumber touristForm = Some 30" by (simp add: touristForm_def)
  have all: "\<forall>k. \<exists>h. scheduleAnswer phone k = Inr h"
    by (simp add: phone_def resolveWithIndex_def)
  have allM: "\<forall>k. \<exists>h. scheduleAnswer phoneMid k = Inr h"
    by (simp add: phoneMid_def phone_def resolveWithIndex_def)
  have allE: "\<forall>k. \<exists>h. scheduleAnswer phoneEmptyAnswer k = Inr h"
    by (simp add: phoneEmptyAnswer_def phone_def emptyAt_def resolveWithIndex_def)
  have perm: "\<not> web phone" "ensureNotifPermission phone" "\<not> web phoneMid"
      "ensureNotifPermission phoneMid" "\<not> web phoneEmptyAnswer"
      "ensureNotifPermission phoneEmptyAnswer" "\<not> ensureNotifPermission pd"
    by (simp_all add: phone_def phoneMid_def phoneEmptyAnswer_def pd_def
        ensureNotifPermission_def)
  have ew: "visas emptyWorld = []" "alerts emptyWorld = []" "scheduled emptyWorld = []"
      "reads emptyWorld = 0"
    by (simp_all add: emptyWorld_def)
  have off: "offsetsDays DEFAULTS = [14, 7, 3, 0]" "entryDateText touristForm = ''2026-01-01''"
    by (simp_all add: DEFAULTS_def touristForm_def)
  have a: "map notificationIds (visas (onSave phone touristForm emptyWorld))
       = [Some [''n0'', ''n1'', ''n2'', ''n3'']]
     \<and> alerts (onSave phone touristForm emptyWorld) = []"
    using onSave_stores_record_when_no_call_rejects
      [OF conjunct1 [OF passesChecks_samples] sw(1) conjunct1 [OF settings_samples] du refl,
        of ] all perm due_samples handles_samples
    by (auto simp: ew off)
  have b: "map notificationIds (visas (onSave phoneMid touristForm emptyWorld))
       = [Some [''n0'', ''n1'', ''n2'']]
     \<and> alerts (onSave phoneMid touristForm emptyWorld) = []"
    using onSave_stores_record_when_no_call_rejects
      [of phoneMid touristForm emptyWorld DEFAULTS 30, OF _ sw(2) _ du refl]
      passesChecks_samples settings_samples allM perm due_samples handles_samples
    by (auto simp: ew off)
  have c: "map notificationIds (visas (onSave phoneEmptyAnswer touristForm emptyWorld))
       = [Some [''n0'', ''n2'', ''n3'']]
     \<and> length (scheduled (onSave phoneEmptyAnswer touristForm emptyWorld)) = 4
     \<and> alerts (onSave phoneEmptyAnswer touristForm emptyWorld) = []"
  proof -
    have "length (map date (scheduled (onSave phoneEmptyAnswer touristForm emptyWorld))) = 4
      \<and> map notificationIds (visas (onSave phoneEmptyAnswer touristForm emptyWorld))
       = [Some [''n0'', ''n2'', ''n3'']]
      \<and> alerts (onSave phoneEmptyAnswer touristForm emptyWorld) = []"
      using onSave_stores_record_when_no_call_rejects
        [of phoneEmptyAnswer touristForm emptyWorld DEFAULTS 30, OF _ sw(3) _ du refl]
        passesChecks_samples settings_samples allE perm due_samples handles_samples
      by (auto simp: ew off)
    then show ?thesis by simp
  qed
  have d: "map notificationIds (visas (onSave pd touristForm emptyWorld)) = [Some []]
     \<and> alerts (onSave pd touristForm emptyWorld) = []"
    using onSave_stores_record_when_no_call_rejects
      [of pd touristForm emptyWorld DEFAULTS 30, OF _ sw(4) _ du refl]
      passesChecks_samples settings_samples perm
    by (auto simp: ew off pd_def)
  show ?thesis
    using a b c d conjunct1 [OF passesChecks_samples] sw(1) all perm(7)
    unfolding pd_def by simp
qed

section \<open>Deleting a visa\<close>

text \<open>
  C3, as stated, fails.  The record has three handles and every cancellation rejects:
  the three requests are issued, the rejection leaves the handler before
  \<open>deleteVisa\<close>, and the record is still in the store.  On the web platform no request
  is issued at all.
\<close>

theorem onDelete_stops_when_cancellation_rejects:
  "cancelled (snd (onDelete (phone\<lparr>cancelAnswer := cancelRejects\<rparr>) storedItem worldWithVisa))
     = [''a'', ''b'', ''c'']
   \<and> fst (onDelete (phone\<lparr>cancelAnswer := cancelRejects\<rparr>) storedItem worldWithVisa) = Inl ''gone''
   \<and> visas (snd (onDelete (phone\<lparr>cancelAnswer := cancelRejects\<rparr>) storedItem worldWithVisa))
     = [storedVisa]
   \<and> cancelled (snd (onDelete (phone\<lparr>web := True\<rparr>) storedItem worldWithVisa)) = []"
  by code_simp

text \<open>
  C3, amended.  On a device that is not the web platform, deleting a record with the
  handles \<open>ids\<close> issues exactly these cancellation requests, one for each handle;
  when every cancellation succeeds and the store answers, the record is removed from the
  store.
\<close>

theorem onDelete_cancels_every_handle_then_removes:
  assumes "ids = (case notificationIds item of None \<Rightarrow> [] | Some xs \<Rightarrow> xs)" and "\<not> web dev"
  shows "cancelled (snd (onDelete dev item w)) = cancelled w @ ids
     \<and> ((\<forall>i\<in>set ids. cancelAnswer dev i = Inr ()) \<and> storageWorks dev \<longrightarrow>
          onDelete dev item w
            = (Inr (), w\<lparr>cancelled := cancelled w @ ids,
                          visas := filter (\<lambda>v. visa_id v \<noteq> visa_id item) (visas w)\<rparr>))"
proof -
  have none: "firstRejection (map (cancelAnswer dev) xs) = None"
    if "\<forall>i\<in>set xs. cancelAnswer dev i = Inr ()" for xs
    using that by (induction xs) simp_all
  have c: "cancelled (snd (cancelScheduled dev xs w)) = cancelled w @ xs" for xs
    using assms(2) by (simp add: cancelScheduled_def Let_def split: option.split)
  have d: "cancelled (snd (deleteVisa dev k w')) = cancelled w'" for k w'
    by (simp add: deleteVisa_def getVisas_def)
  have first: "cancelled (snd (onDelete dev item w)) = cancelled w @ ids"
    using assms c [of ids]
    by (auto simp: onDelete_def deleteVisa_def getVisas_def cancelScheduled_def Let_def
        split: option.splits list.splits prod.splits sum.splits)
  have second: "onDelete dev item w
            = (Inr (), w\<lparr>cancelled := cancelled w @ ids,
                          visas := filter (\<lambda>v. visa_id v \<noteq> visa_id item) (visas w)\<rparr>)"
    if ok: "\<forall>i\<in>set ids. cancelAnswer dev i = Inr ()" and sw: "storageWorks dev"
    using assms sw
    by (auto simp: onDelete_def deleteVisa_def getVisas_def cancelScheduled_def Let_def
        none [OF ok] split: option.splits)
  from first second show ?thesis by blast
qed

theorem onDelete_cancels_every_handle_then_removes_witness:
  "[''a'', ''b'', ''c''] = (case notificationIds storedItem of None \<Rightarrow> [] | Some xs \<Rightarrow> xs)
   \<and> web phone = False
   \<and> list_all (\<lambda>i. cancelAnswer phone i = Inr ()) [''a'', ''b'', ''c'']
   \<and> storageWorks phone
   \<and> cancelled (snd (onDelete phone storedItem worldWithVisa)) = [''a'', ''b'', ''c'']
   \<and> visas (snd (onDelete phone storedItem worldWithVisa)) = []
   \<and> fst (onDelete phone storedItem worldWithVisa) = Inr ()"
proof -
  have 1: "[''a'', ''b'', ''c''] = (case notificationIds storedItem of None \<Rightarrow> [] | Some xs \<Rightarrow> xs)"
    by (simp add: storedItem_def storedVisa_def Visa.extend_def)
  have 2: "\<not> web phone" by (simp add: phone_def)
  have 3: "\<forall>i\<in>set [''a'', ''b'', ''c'']. cancelAnswer phone i = Inr ()"
    by (simp add: phone_def cancelResolves_def)
  have 4: "storageWorks phone" by (simp add: phone_def)
  show ?thesis
    using onDelete_cancels_every_handle_then_removes [OF 1 2, of worldWithVisa] 3 4
    by (simp add: storedItem_def storedVisa_def Visa.extend_def worldWithVisa_def
        emptyWorld_def phone_def cancelResolves_def)
qed

section \<open>Calendar arithmetic\<close>

lemma div_lo: "0 < c \<Longrightarrow> c * (x div c) \<le> (x::int)"
  by (metis mult.commute pos_mod_sign div_mult_mod_eq add.commute le_add_same_cancel1 mult.commute)

lemma div_hi: "0 < c \<Longrightarrow> (x::int) < c * (x div c) + c"
  by (metis add.commute add_less_cancel_left div_mult_mod_eq mult.commute pos_mod_bound)

lemma div_succ:
  fixes x c :: int
  assumes c: "0 < c"
  shows "(x + 1) div c = x div c + (if (x + 1) mod c = 0 then 1 else 0)"
proof -
  define q where "q = x div c"
  define r where "r = x mod c"
  have x: "x = c * q + r" and r: "0 \<le> r" "r < c"
    using c by (simp_all add: q_def r_def)
  show ?thesis
  proof (cases "r + 1 = c")
    case True
    then have e: "x + 1 = c * (q + 1) + 0" using x by (simp add: algebra_simps)
    have "(x + 1) div c = q + 1" using c by (intro int_div_pos_eq [OF e]) simp_all
    moreover have "(x + 1) mod c = 0" using c by (intro int_mod_pos_eq [OF e]) simp_all
    ultimately show ?thesis by (simp add: q_def)
  next
    case False
    then have r1: "0 \<le> r + 1" "r + 1 < c" using r by simp_all
    have e: "x + 1 = c * q + (r + 1)" using x by simp
    have "(x + 1) div c = q" by (rule int_div_pos_eq [OF e r1])
    moreover have "(x + 1) mod c = r + 1" by (rule int_mod_pos_eq [OF e r1])
    ultimately show ?thesis using r by (simp add: q_def)
  qed
qed

lemma DayFromYear_Suc: "DayFromYear (y + 1) = DayFromYear y + DaysInYear y"
proof -
  have a: "(y + 1 - 1969) div 4 = (y - 1969) div 4 + (if y mod 4 = 0 then 1 else 0)"
  proof -
    have "(y - 1969 + 1) mod 4 = (y + 4 * (- 492)) mod 4" by simp
    also have "\<dots> = y mod 4" by (rule mod_mult_self2)
    finally have "(y - 1969 + 1) mod 4 = 0 \<longleftrightarrow> y mod 4 = 0" by simp
    then show ?thesis using div_succ [of 4 "y - 1969"] by (simp add: algebra_simps)
  qed
  have b: "(y + 1 - 1901) div 100 = (y - 1901) div 100 + (if y mod 100 = 0 then 1 else 0)"
  proof -
    have "(y - 1901 + 1) mod 100 = (y + 100 * (- 19)) mod 100" by simp
    also have "\<dots> = y mod 100" by (rule mod_mult_self2)
    finally have "(y - 1901 + 1) mod 100 = 0 \<longleftrightarrow> y mod 100 = 0" by simp
    then show ?thesis using div_succ [of 100 "y - 1901"] by (simp add: algebra_simps)
  qed
  have c: "(y + 1 - 1601) div 400 = (y - 1601) div 400 + (if y mod 400 = 0 then 1 else 0)"
  proof -
    have "(y - 1601 + 1) mod 400 = (y + 400 * (- 4)) mod 400" by simp
    also have "\<dots> = y mod 400" by (rule mod_mult_self2)
    finally have "(y - 1601 + 1) mod 400 = 0 \<longleftrightarrow> y mod 400 = 0" by simp
    then show ?thesis using div_succ [of 400 "y - 1601"] by (simp add: algebra_simps)
  qed
  have d1: "y mod 100 = 0 \<Longrightarrow> y mod 4 = 0"
    using dvd_trans [of 4 100 y] by (simp add: mod_eq_0_iff_dvd)
  have d2: "y mod 400 = 0 \<Longrightarrow> y mod 100 = 0"
    using dvd_trans [of 100 400 y] by (simp add: mod_eq_0_iff_dvd)
  show ?thesis
    unfolding DayFromYear_def DaysInYear_def a b c using d1 d2 by auto
qed


lemma DayFromYear_bounds:
  shows "146097 * y - 287811596 \<le> 400 * DayFromYear y"
    and "400 * DayFromYear y \<le> 146097 * y - 287810501"
proof -
  define a where "a = (y - 1969) div 4"
  define b where "b = (y - 1901) div 100"
  define c where "c = (y - 1601) div 400"
  have a: "4 * a \<le> y - 1969" "y - 1969 < 4 * a + 4"
    unfolding a_def by (rule div_lo, simp) (rule div_hi, simp)
  have b: "100 * b \<le> y - 1901" "y - 1901 < 100 * b + 100"
    unfolding b_def by (rule div_lo, simp) (rule div_hi, simp)
  have c: "400 * c \<le> y - 1601" "y - 1601 < 400 * c + 400"
    unfolding c_def by (rule div_lo, simp) (rule div_hi, simp)
  have D: "DayFromYear y = 365 * y - 719050 + a - b + c"
    by (simp add: DayFromYear_def a_def b_def c_def)
  show "146097 * y - 287811596 \<le> 400 * DayFromYear y"
    using a b c D by linarith
  show "400 * DayFromYear y \<le> 146097 * y - 287810501"
    using a b c D by linarith
qed

lemma YearFromDay_lower: "DayFromYear (YearFromDay dy) \<le> dy"
proof -
  define q where "q = (400 * dy) div 146097"
  define Y where "Y = 1970 + q - 1"
  have q: "146097 * q \<le> 400 * dy"
    unfolding q_def by (rule div_lo) simp
  have Y: "146097 * Y = 146097 * q + 287664993" by (simp add: Y_def)
  have "DayFromYear Y \<le> dy"
    using DayFromYear_bounds(2) [of Y] q Y by linarith
  then show ?thesis
    by (simp add: YearFromDay_def Let_def q_def Y_def)
qed

lemma YearFromDay_upper: "dy < DayFromYear (YearFromDay dy + 1)"
proof -
  define q where "q = (400 * dy) div 146097"
  define Y where "Y = 1970 + q + 1 + 1"
  have q: "400 * dy < 146097 * q + 146097"
    unfolding q_def by (rule div_hi) simp
  have Y: "146097 * Y = 146097 * q + 288103284" by (simp add: Y_def)
  have "dy < DayFromYear Y"
    using DayFromYear_bounds(1) [of Y] q Y by linarith
  then show ?thesis
    by (simp add: YearFromDay_def Let_def q_def Y_def)
qed

lemma DaysInYear_cases: "DaysInYear y = 365 \<or> DaysInYear y = 366"
  by (simp add: DaysInYear_def)

lemma DayFromYear_mono: "a \<le> b \<Longrightarrow> DayFromYear a \<le> DayFromYear b"
proof (induction rule: int_le_induct [where k = b and i = a, consumes 1])
  case base
  show ?case by simp
next
  case (step i)
  have "DayFromYear i = DayFromYear (i - 1) + DaysInYear (i - 1)"
    using DayFromYear_Suc [of "i - 1"] by simp
  with step DaysInYear_cases [of "i - 1"] show ?case by auto
qed

lemma YearFromDay_ge: "DayFromYear k \<le> dy \<Longrightarrow> k \<le> YearFromDay dy"
proof (rule ccontr)
  assume k: "DayFromYear k \<le> dy" and "\<not> k \<le> YearFromDay dy"
  then have "YearFromDay dy + 1 \<le> k" by simp
  then have "DayFromYear (YearFromDay dy + 1) \<le> DayFromYear k" by (rule DayFromYear_mono)
  with k YearFromDay_upper [of dy] show False by linarith
qed

text \<open>\<open>YearFromDay\<close> is the year as the language specification defines it.\<close>

lemma YearFromDay_largest:
  "DayFromYear (YearFromDay dy) \<le> dy \<and> (\<forall>y. DayFromYear y \<le> dy \<longrightarrow> y \<le> YearFromDay dy)"
  using YearFromDay_lower [of dy] YearFromDay_ge [of _ dy] by blast

lemma YearFromDay_le: "dy < DayFromYear (k + 1) \<Longrightarrow> YearFromDay dy \<le> k"
proof (rule ccontr)
  assume k: "dy < DayFromYear (k + 1)" and "\<not> YearFromDay dy \<le> k"
  then have "k + 1 \<le> YearFromDay dy" by simp
  then have "DayFromYear (k + 1) \<le> DayFromYear (YearFromDay dy)" by (rule DayFromYear_mono)
  with k YearFromDay_lower [of dy] show False by linarith
qed

lemma Day_whole [simp]: "Day (k * msPerDay) = k" "TimeWithinDay (k * msPerDay) = 0"
  by (simp_all add: Day_def TimeWithinDay_def msPerDay_def)

lemma DayWithinYear_range: "0 \<le> DayWithinYear t \<and> DayWithinYear t < 365 + InLeapYear t"
proof -
  have "DayFromYear (YearFromTime t) \<le> Day t"
    unfolding YearFromTime_def by (rule YearFromDay_lower)
  moreover have "Day t < DayFromYear (YearFromTime t) + DaysInYear (YearFromTime t)"
    unfolding YearFromTime_def DayFromYear_Suc [symmetric] by (rule YearFromDay_upper)
  ultimately show ?thesis
    using DaysInYear_cases [of "YearFromTime t"]
    by (auto simp: DayWithinYear_def InLeapYear_def)
qed

lemma MonthFromTime_range: "0 \<le> MonthFromTime t \<and> MonthFromTime t \<le> 11"
  by (simp add: MonthFromTime_def Let_def)

lemma InLeapYear_cases: "InLeapYear t = 0 \<or> InLeapYear t = 1"
  by (simp add: InLeapYear_def)

lemma DateFromTime_range:
  "1 \<le> DateFromTime t \<and> DateFromTime t \<le> daysInMonth (YearFromTime t) (MonthFromTime t + 1)"
proof -
  define d where "d = DayWithinYear t"
  define l where "l = InLeapYear t"
  have d: "0 \<le> d" "d < 365 + l" using DayWithinYear_range [of t] by (simp_all add: d_def l_def)
  have l: "l = (if DaysInYear (YearFromTime t) = 366 then 1 else 0)"
    by (simp add: l_def InLeapYear_def)
  show ?thesis
    unfolding DateFromTime_def MonthFromTime_def Let_def d_def [symmetric] l_def [symmetric]
    using d l by (auto simp: monthStart_def daysInMonth_def split: if_splits)
qed

lemma MakeDay_roundtrip:
  "MakeDay (YearFromTime t) (MonthFromTime t) (DateFromTime t + n) = Day t + n"
proof -
  have m: "MonthFromTime t div 12 = 0" "MonthFromTime t mod 12 = MonthFromTime t"
    using MonthFromTime_range [of t] by simp_all
  show ?thesis
    by (simp add: MakeDay_def Let_def m DateFromTime_def DayWithinYear_def InLeapYear_def)
qed

lemma monthStart_nonneg: "0 \<le> l \<Longrightarrow> 0 \<le> monthStart m l"
  by (simp add: monthStart_def)

lemma digitValue_range: "isDigit c \<Longrightarrow> 0 \<le> digitValue c \<and> digitValue c \<le> 9"
  by (auto simp: isDigit_def digitValue_def)

lemma decimalValue_snoc: "decimalValue (xs @ [c]) = 10 * decimalValue xs + digitValue c"
  by (simp add: decimalValue_def)

lemma decimalValue_range:
  "list_all isDigit xs \<Longrightarrow> 0 \<le> decimalValue xs \<and> decimalValue xs < 10 ^ length xs"
proof (induction xs rule: rev_induct)
  case Nil
  show ?case by (simp add: decimalValue_def)
next
  case (snoc c xs)
  then have "0 \<le> decimalValue xs" "decimalValue xs < 10 ^ length xs" "isDigit c" by simp_all
  with digitValue_range [of c] show ?case
    by (simp add: decimalValue_snoc)
qed

lemma matchYMD_range:
  assumes "matchYMD s = Some (y, m, d)"
  shows "0 \<le> y \<and> y \<le> 9999 \<and> 0 \<le> m \<and> m \<le> 99 \<and> 0 \<le> d \<and> d \<le> 99"
proof -
  from assms have len: "length s = 10"
    and dig: "list_all isDigit (take 4 s)" "list_all isDigit (take 2 (drop 5 s))"
      "list_all isDigit (drop 8 s)"
    and v: "y = decimalValue (take 4 s)" "m = decimalValue (take 2 (drop 5 s))"
      "d = decimalValue (drop 8 s)"
    by (auto simp: matchYMD_def split: if_splits)
  show ?thesis
    using decimalValue_range [OF dig(1)] decimalValue_range [OF dig(2)]
      decimalValue_range [OF dig(3)] len
    by (simp add: v)
qed


lemma TimeClip_day:
  "- 100000000 \<le> k \<Longrightarrow> k \<le> 100000000 \<Longrightarrow> TimeClip (k * msPerDay) = Some (k * msPerDay)"
  by (simp add: TimeClip_def msPerDay_def abs_le_iff)

lemma MakeDate_midnight [simp]: "MakeDate k (MakeTime 0 0 0 0) = k * msPerDay"
  by (simp add: MakeDate_def MakeTime_def)

text \<open>What the date check of the form establishes.\<close>

lemma valid_date:
  assumes v: "isValidDateYYYYMMDD z s"
  obtains y m d where "matchYMD s = Some (y, m, d)" and "100 \<le> y" and "y \<le> 9999"
    and "YearFromDay (MakeDay y (m - 1) d) = y"
    and "MonthFromTime (MakeDay y (m - 1) d * msPerDay) = m - 1"
    and "DateFromTime (MakeDay y (m - 1) d * msPerDay) = d"
proof -
  from v obtain y m d where ymd: "matchYMD s = Some (y, m, d)"
    by (auto simp: isValidDateYYYYMMDD_def split: option.splits)
  define L where "L = MakeDay (fullYear y) (m - 1) d * msPerDay"
  from v ymd have g: "getFullYear z (newDateLocal z y (m - 1) d) = Some y"
      "getMonth z (newDateLocal z y (m - 1) d) = Some (m - 1)"
      "getDate z (newDateLocal z y (m - 1) d) = Some d"
    by (simp_all add: isValidDateYYYYMMDD_def Let_def)
  have nd: "newDateLocal z y (m - 1) d = TimeClip (L - z)"
    by (simp add: newDateLocal_def UTC_of_local_def L_def)
  from g(1) have some: "TimeClip (L - z) = Some (L - z)"
    unfolding nd by (simp add: getFullYear_def TimeClip_def split: if_splits)
  from g have loc: "YearFromTime L = y" "MonthFromTime L = m - 1" "DateFromTime L = d"
    unfolding nd some by (simp_all add: getFullYear_def getMonth_def getDate_def LocalTime_def)
  have rng: "0 \<le> y" "y \<le> 9999" "0 \<le> m" "0 \<le> d"
    using matchYMD_range [OF ymd] by simp_all
  have big: "100 \<le> y"
  proof (rule ccontr)
    assume "\<not> 100 \<le> y"
    with rng have y99: "0 \<le> y" "y \<le> 99" by simp_all
    then have fy: "fullYear y = 1900 + y" by (simp add: fullYear_def)
    define ym where "ym = 1900 + y + (m - 1) div 12"
    have "- 1 \<le> (m - 1) div 12" using rng(3) by simp
    then have "1899 \<le> ym" using y99 by (simp add: ym_def)
    then have "DayFromYear 1899 \<le> DayFromYear ym" by (rule DayFromYear_mono)
    moreover have "0 \<le> monthStart ((m - 1) mod 12) (if DaysInYear ym = 366 then 1 else 0)"
      by (rule monthStart_nonneg) simp
    ultimately have "DayFromYear 1899 - 1 \<le> MakeDay (1900 + y) (m - 1) d"
      using rng(4) by (simp add: MakeDay_def Let_def ym_def)
    moreover have "DayFromYear 1898 \<le> DayFromYear 1899 - 1"
      by (simp add: DayFromYear_def)
    ultimately have "DayFromYear 1898 \<le> MakeDay (1900 + y) (m - 1) d" by linarith
    then have "1898 \<le> YearFromDay (MakeDay (1900 + y) (m - 1) d)" by (rule YearFromDay_ge)
    with loc(1) y99 show False
      by (simp add: L_def fy YearFromTime_def)
  qed
  then have fy: "fullYear y = y" by (simp add: fullYear_def)
  show thesis
    using that [OF ymd big rng(2)] loc by (simp add: L_def fy YearFromTime_def)
qed

lemma valid_date_parses:
  assumes v: "isValidDateYYYYMMDD z s"
  obtains k where "newDateMidnightZ s = Some (k * msPerDay)"
    and "DayFromYear 100 \<le> k" and "k < DayFromYear 10000"
    and "100 \<le> YearFromDay k"
proof -
  from v obtain y m d where ymd: "matchYMD s = Some (y, m, d)" and y: "100 \<le> y" "y \<le> 9999"
    and Y: "YearFromDay (MakeDay y (m - 1) d) = y"
    and M: "MonthFromTime (MakeDay y (m - 1) d * msPerDay) = m - 1"
    and D: "DateFromTime (MakeDay y (m - 1) d * msPerDay) = d"
    by (rule valid_date)
  define k where "k = MakeDay y (m - 1) d"
  have lo: "DayFromYear y \<le> k" using YearFromDay_lower [of k] Y by (simp add: k_def)
  have hi: "k < DayFromYear (y + 1)" using YearFromDay_upper [of k] Y by (simp add: k_def)
  have "DayFromYear 100 \<le> DayFromYear y" using y(1) by (rule DayFromYear_mono)
  with lo have k1: "DayFromYear 100 \<le> k" by linarith
  have "DayFromYear (y + 1) \<le> DayFromYear 10000" using y(2) by (intro DayFromYear_mono) simp
  with hi have k2: "k < DayFromYear 10000" by linarith
  have mr: "1 \<le> m" "m \<le> 12"
    using MonthFromTime_range [of "k * msPerDay"] M by (simp_all add: k_def)
  have dr: "1 \<le> d" "d \<le> daysInMonth y m"
    using DateFromTime_range [of "k * msPerDay"] M D Y
    by (simp_all add: k_def YearFromTime_def)
  have num: "DayFromYear 100 = - 683003" "DayFromYear 10000 = 2932897"
    by (simp_all add: DayFromYear_def)
  have tc: "TimeClip (k * msPerDay) = Some (k * msPerDay)"
    using k1 k2 num by (intro TimeClip_day) simp_all
  have p: "newDateMidnightZ s = Some (k * msPerDay)"
    using ymd mr dr tc by (simp add: newDateMidnightZ_def k_def)
  show thesis
    using that [OF p k1 k2] Y y by (simp add: k_def)
qed

lemma addDays_whole:
  assumes "newDateMidnightZ s = Some (k * msPerDay)"
  shows "addDays s n = TimeClip ((k + n) * msPerDay)"
  using assms
  by (simp add: addDays_def Let_def setUTCDate_def getUTCDate_def MakeDay_roundtrip MakeDate_def)

lemma Date_UTC_of_day:
  assumes "YearFromDay k < 0 \<or> 99 < YearFromDay k"
  shows "Date_UTC (getUTCFullYear (Some (k * msPerDay))) (getUTCMonth (Some (k * msPerDay)))
           (getUTCDate (Some (k * msPerDay))) = TimeClip (k * msPerDay)"
proof -
  have "fullYear (YearFromTime (k * msPerDay)) = YearFromTime (k * msPerDay)"
    using assms by (auto simp: fullYear_def YearFromTime_def)
  then show ?thesis
    using MakeDay_roundtrip [of "k * msPerDay" 0]
    by (simp add: Date_UTC_def getUTCFullYear_def getUTCMonth_def getUTCDate_def)
qed

lemma roundtrip_general:
  assumes v: "isValidDateYYYYMMDD z s" and t: "addDays s n = Some t"
    and yr: "YearFromTime t < 0 \<or> 99 < YearFromTime t"
  shows "daysBetweenUTC (newDateMidnightZ s) (addDays s n) = Some n"
proof -
  from v obtain k where p: "newDateMidnightZ s = Some (k * msPerDay)"
    and k: "DayFromYear 100 \<le> k" "k < DayFromYear 10000" and ky: "100 \<le> YearFromDay k"
    by (rule valid_date_parses)
  have num: "DayFromYear 100 = - 683003" "DayFromYear 10000 = 2932897"
    by (simp_all add: DayFromYear_def)
  have tc: "TimeClip (k * msPerDay) = Some (k * msPerDay)"
    using k num by (intro TimeClip_day) simp_all
  have a: "addDays s n = TimeClip ((k + n) * msPerDay)" by (rule addDays_whole [OF p])
  with t have t': "t = (k + n) * msPerDay" and tc': "TimeClip ((k + n) * msPerDay) = Some ((k + n) * msPerDay)"
    by (auto simp: TimeClip_def split: if_splits)
  have a0: "Date_UTC (getUTCFullYear (Some (k * msPerDay))) (getUTCMonth (Some (k * msPerDay)))
           (getUTCDate (Some (k * msPerDay))) = Some (k * msPerDay)"
    using Date_UTC_of_day [of k] ky tc by simp
  have b0: "Date_UTC (getUTCFullYear (Some ((k + n) * msPerDay))) (getUTCMonth (Some ((k + n) * msPerDay)))
           (getUTCDate (Some ((k + n) * msPerDay))) = Some ((k + n) * msPerDay)"
    using Date_UTC_of_day [of "k + n"] yr tc' by (simp add: t' YearFromTime_def)
  have q: "((k + n) * msPerDay - k * msPerDay) div msPerDay = n"
    by (simp add: msPerDay_def algebra_simps)
  show ?thesis
    unfolding p a tc' daysBetweenUTC_def Let_def a0 b0 by (simp add: q)
qed

lemma roundtrip_forward:
  assumes v: "isValidDateYYYYMMDD z s" and n: "0 \<le> n" "n \<le> 97000000"
  shows "daysBetweenUTC (newDateMidnightZ s) (addDays s n) = Some n"
proof -
  from v obtain k where p: "newDateMidnightZ s = Some (k * msPerDay)"
    and k: "DayFromYear 100 \<le> k" "k < DayFromYear 10000" and ky: "100 \<le> YearFromDay k"
    by (rule valid_date_parses)
  have num: "DayFromYear 100 = - 683003" "DayFromYear 10000 = 2932897"
    by (simp_all add: DayFromYear_def)
  have tc: "TimeClip ((k + n) * msPerDay) = Some ((k + n) * msPerDay)"
    using k n num by (intro TimeClip_day) simp_all
  have a: "addDays s n = Some ((k + n) * msPerDay)"
    using addDays_whole [OF p, of n] tc by simp
  have "DayFromYear 100 \<le> k + n" using k(1) n(1) by linarith
  then have "100 \<le> YearFromDay (k + n)" by (rule YearFromDay_ge)
  then have "YearFromTime ((k + n) * msPerDay) < 0 \<or> 99 < YearFromTime ((k + n) * msPerDay)"
    by (simp add: YearFromTime_def)
  then show ?thesis by (rule roundtrip_general [OF v a])
qed

lemma Day_range:
  assumes "TimeClip t = Some t"
  shows "- 100000000 \<le> Day t \<and> Day t \<le> 100000000"
proof -
  from assms have t: "- 8640000000000000 \<le> t" "t \<le> 8640000000000000"
    by (simp_all add: TimeClip_def abs_le_iff split: if_splits)
  have "(- 8640000000000000) div msPerDay \<le> t div msPerDay"
    using t(1) by (intro zdiv_mono1) (simp_all add: msPerDay_def)
  moreover have "t div msPerDay \<le> 8640000000000000 div msPerDay"
    using t(2) by (intro zdiv_mono1) (simp_all add: msPerDay_def)
  ultimately show ?thesis by (simp add: Day_def msPerDay_def)
qed

lemma monthStart_le: "l \<le> 1 \<Longrightarrow> monthStart m l \<le> 335"
  by (simp add: monthStart_def)

lemma daysInMonth_le: "daysInMonth y m \<le> 31"
  by (simp add: daysInMonth_def)

lemma Date_UTC_defined:
  assumes "TimeClip t = Some t"
  shows "\<exists>x. Date_UTC (getUTCFullYear (Some t)) (getUTCMonth (Some t)) (getUTCDate (Some t))
           = Some (x * msPerDay)"
proof (cases "0 \<le> YearFromTime t \<and> YearFromTime t \<le> 99")
  case False
  then have "fullYear (YearFromTime t) = YearFromTime t" by (auto simp: fullYear_def)
  then have "Date_UTC (getUTCFullYear (Some t)) (getUTCMonth (Some t)) (getUTCDate (Some t))
      = TimeClip (Day t * msPerDay)"
    using MakeDay_roundtrip [of t 0]
    by (simp add: Date_UTC_def getUTCFullYear_def getUTCMonth_def getUTCDate_def)
  also have "\<dots> = Some (Day t * msPerDay)"
    using Day_range [OF assms] by (intro TimeClip_day) simp_all
  finally show ?thesis by blast
next
  case True
  define k where "k = MakeDay (1900 + YearFromTime t) (MonthFromTime t) (DateFromTime t)"
  from True have fy: "fullYear (YearFromTime t) = 1900 + YearFromTime t"
    by (simp add: fullYear_def)
  have m: "MonthFromTime t div 12 = 0" "MonthFromTime t mod 12 = MonthFromTime t"
    using MonthFromTime_range [of t] by simp_all
  have lo: "DayFromYear 1900 \<le> DayFromYear (1900 + YearFromTime t)"
    using True by (intro DayFromYear_mono) simp
  have hi: "DayFromYear (1900 + YearFromTime t) \<le> DayFromYear 1999"
    using True by (intro DayFromYear_mono) simp
  have num: "DayFromYear 1900 = - 25567" "DayFromYear 1999 = 10592"
    by (simp_all add: DayFromYear_def)
  have ms: "0 \<le> monthStart (MonthFromTime t) (if DaysInYear (1900 + YearFromTime t) = 366 then 1 else 0)"
      "monthStart (MonthFromTime t) (if DaysInYear (1900 + YearFromTime t) = 366 then 1 else 0) \<le> 335"
    by (rule monthStart_nonneg, simp) (rule monthStart_le, simp)
  have dt: "1 \<le> DateFromTime t" "DateFromTime t \<le> 31"
    using DateFromTime_range [of t] daysInMonth_le [of "YearFromTime t" "MonthFromTime t + 1"]
    by simp_all
  have "- 100000000 \<le> k \<and> k \<le> 100000000"
    using lo hi ms dt unfolding num by (simp add: k_def MakeDay_def Let_def m)
  then have "TimeClip (k * msPerDay) = Some (k * msPerDay)"
    by (intro TimeClip_day) simp_all
  then show ?thesis
    by (simp add: Date_UTC_def getUTCFullYear_def getUTCMonth_def getUTCDate_def fy k_def)
qed

lemma daysBetweenUTC_defined:
  assumes "TimeClip a = Some a" and "TimeClip b = Some b"
  shows "\<exists>n. daysBetweenUTC (Some a) (Some b) = Some n"
proof -
  obtain x where x: "Date_UTC (getUTCFullYear (Some a)) (getUTCMonth (Some a)) (getUTCDate (Some a))
           = Some (x * msPerDay)"
    using Date_UTC_defined [OF assms(1)] by blast
  obtain y where y: "Date_UTC (getUTCFullYear (Some b)) (getUTCMonth (Some b)) (getUTCDate (Some b))
           = Some (y * msPerDay)"
    using Date_UTC_defined [OF assms(2)] by blast
  show ?thesis
    by (simp add: daysBetweenUTC_def Let_def x y)
qed

lemma addDays_clipped: "addDays s n = Some t \<Longrightarrow> TimeClip t = Some t"
  by (auto simp: addDays_def Let_def setUTCDate_def TimeClip_def
      split: option.splits if_splits)

lemma withCountdown_finite:
  assumes "withCountdown now v = Inr item" and "\<bar>now\<bar> \<le> 8640000000000000"
  shows "\<exists>n. daysRemaining item = Some n"
proof -
  from assms(1) obtain t where e: "addDays (entryDate v) (durationDays v) = Some t"
    by (cases "addDays (entryDate v) (durationDays v)")
       (auto simp: withCountdown_def computeCountdown_def Let_def toISOString10_def)
  have tb: "TimeClip t = Some t" by (rule addDays_clipped [OF e])
  have ta: "TimeClip now = Some now" using assms(2) by (simp add: TimeClip_def)
  obtain n where n: "daysBetweenUTC (Some now) (Some t) = Some n"
    using daysBetweenUTC_defined [OF ta tb] by blast
  from assms(1) have "daysRemaining item = daysBetweenUTC (Some now) (Some t)"
    by (auto simp: withCountdown_def computeCountdown_def Let_def e Visa.extend_def
        split: sum.splits)
  with n show ?thesis by simp
qed

lemma mapE_Inr:
  "mapE f xs = Inr ys \<Longrightarrow> \<forall>y\<in>set ys. \<exists>x\<in>set xs. f x = Inr y"
proof (induction xs arbitrary: ys)
  case Nil
  then show ?case by simp
next
  case (Cons x xs)
  then show ?case by (auto split: sum.splits)
qed

section \<open>Adding days and counting them\<close>

text \<open>
  C8, as stated, fails.  The entry date 0100-01-01 passes the date check; one day
  before it lies in the year 99, which \<open>Date.UTC\<close> reads as 1999, and the difference
  comes out as 693959 instead of -1.  And 200000000 days after 2026-01-01 is beyond the
  range of \<open>Date\<close>: the sum is an Invalid Date and the difference NaN.
\<close>

theorem roundtrip_fails_outside_range:
  "isValidDateYYYYMMDD 0 ''0100-01-01''
   \<and> daysBetweenUTC (newDateMidnightZ ''0100-01-01'') (addDays ''0100-01-01'' (- 1)) = Some 693959
   \<and> isValidDateYYYYMMDD 0 ''2026-01-01''
   \<and> addDays ''2026-01-01'' 200000000 = None
   \<and> daysBetweenUTC (newDateMidnightZ ''2026-01-01'') (addDays ''2026-01-01'' 200000000) = None"
  by code_simp

text \<open>
  C8, amended.  For every entry date that passes the date check of the form and every
  whole number of days \<open>n\<close>, \<open>daysBetweenUTC(entry, addDays(entry, n))\<close> is \<open>n\<close>
  whenever the sum is a valid Date whose year is not one of 0 to 99; that is the case
  for every \<open>n\<close> from 0 to 97000000, so for every duration the form accepts (1 to 365).
  Both operations work on UTC midnights.
\<close>

theorem daysBetween_addDays:
  assumes "isValidDateYYYYMMDD z s"
  shows "(\<forall>t. addDays s n = Some t \<and> (YearFromTime t < 0 \<or> 99 < YearFromTime t)
            \<longrightarrow> daysBetweenUTC (newDateMidnightZ s) (addDays s n) = Some n)
     \<and> (0 \<le> n \<and> n \<le> 97000000
            \<longrightarrow> daysBetweenUTC (newDateMidnightZ s) (addDays s n) = Some n)
     \<and> (\<exists>k. newDateMidnightZ s = Some (k * msPerDay))"
proof (intro conjI allI impI)
  fix t
  assume "addDays s n = Some t \<and> (YearFromTime t < 0 \<or> 99 < YearFromTime t)"
  then show "daysBetweenUTC (newDateMidnightZ s) (addDays s n) = Some n"
    using roundtrip_general [OF assms, of n t] by blast
next
  assume "0 \<le> n \<and> n \<le> 97000000"
  then show "daysBetweenUTC (newDateMidnightZ s) (addDays s n) = Some n"
    using roundtrip_forward [OF assms, of n] by blast
next
  show "\<exists>k. newDateMidnightZ s = Some (k * msPerDay)"
    using valid_date_parses [OF assms] by blast
qed

lemma sample_date_valid: "isValidDateYYYYMMDD 0 ''2026-01-01''"
  by code_simp

lemma sample_date_back:
  "addDays ''2026-01-01'' (- 400) = Some 1732665600000 \<and> YearFromTime 1732665600000 = 2024"
  by code_simp

theorem daysBetween_addDays_witness:
  "isValidDateYYYYMMDD 0 ''2026-01-01''
   \<and> (0 :: int) \<le> 30 \<and> (30 :: int) \<le> 97000000
   \<and> daysBetweenUTC (newDateMidnightZ ''2026-01-01'') (addDays ''2026-01-01'' 30) = Some 30
   \<and> addDays ''2026-01-01'' (- 400) = Some 1732665600000
   \<and> 99 < YearFromTime 1732665600000
   \<and> daysBetweenUTC (newDateMidnightZ ''2026-01-01'') (addDays ''2026-01-01'' (- 400))
       = Some (- 400)"
  using daysBetween_addDays [OF sample_date_valid, of 30]
    daysBetween_addDays [OF sample_date_valid, of "- 400"]
    sample_date_valid sample_date_back
  by simp

section \<open>The order of the list\<close>

subsection \<open>The comparator and the insertion\<close>

lemma rank_bandRank: "rank x = bandRank (status (daysRemaining x))"
  by (simp add: rank_def status_def)

lemma compare_positive:
  assumes "daysRemaining a = Some x" and "daysRemaining b = Some y"
  shows "(case compareItems a b of None \<Rightarrow> False | Some c \<Rightarrow> 0 < c) \<longleftrightarrow> \<not> canonicalBefore a b"
proof -
  have cb: "canonicalBefore a b \<longleftrightarrow> rank a < rank b \<or> (rank a = rank b \<and> x \<le> y)"
    by (simp add: canonicalBefore_def rank_bandRank Let_def assms)
  have cmp: "compareItems a b = (if rank a \<noteq> rank b then Some (rank a - rank b) else Some (x - y))"
    by (simp add: compareItems_def Let_def assms)
  show ?thesis unfolding cb cmp by auto
qed

lemma canonicalBefore_total:
  assumes "daysRemaining a = Some x" and "daysRemaining b = Some y"
  shows "canonicalBefore a b \<or> canonicalBefore b a"
  using assms by (auto simp: canonicalBefore_def Let_def)

lemma canonicalBefore_trans:
  "canonicalBefore a b \<Longrightarrow> canonicalBefore b c \<Longrightarrow> canonicalBefore a c"
  by (auto simp: canonicalBefore_def Let_def split: option.splits)

lemma set_insertBy: "set (insertBy cmp x ys) = insert x (set ys)"
  by (induction ys) auto

lemma mset_insertBy: "mset (insertBy cmp x ys) = add_mset x (mset ys)"
  by (induction ys) auto

lemma set_sortBy: "set (sortBy cmp xs) = set xs"
  by (induction xs) (simp_all add: sortBy_def set_insertBy)

lemma mset_sortBy: "mset (sortBy cmp xs) = mset xs"
  by (induction xs) (simp_all add: sortBy_def mset_insertBy)

lemma sorted_insertBy:
  assumes "\<exists>n. daysRemaining x = Some n" and "\<forall>y\<in>set ys. \<exists>n. daysRemaining y = Some n"
    and "sorted_wrt canonicalBefore ys"
  shows "sorted_wrt canonicalBefore (insertBy compareItems x ys)"
  using assms(2,3)
proof (induction ys)
  case Nil
  show ?case by simp
next
  case (Cons y ys)
  obtain n where n: "daysRemaining x = Some n" using assms(1) by blast
  obtain k where k: "daysRemaining y = Some k" using Cons.prems(1) by auto
  show ?case
  proof (cases "canonicalBefore x y")
    case True
    then have "\<forall>z\<in>set ys. canonicalBefore x z"
      using Cons.prems(2) by (auto intro: canonicalBefore_trans)
    with True Cons.prems(2) show ?thesis
      using compare_positive [OF n k] by simp
  next
    case False
    then have yx: "canonicalBefore y x"
      using canonicalBefore_total [OF n k] by blast
    have "sorted_wrt canonicalBefore (insertBy compareItems x ys)"
      using Cons by simp
    with False yx Cons.prems(2) show ?thesis
      using compare_positive [OF n k] by (auto simp: set_insertBy)
  qed
qed

lemma sorted_sortBy:
  "\<forall>y\<in>set xs. \<exists>n. daysRemaining y = Some n \<Longrightarrow>
   sorted_wrt canonicalBefore (sortBy compareItems xs)"
proof (induction xs)
  case Nil
  show ?case by (simp add: sortBy_def)
next
  case (Cons x xs)
  have "sorted_wrt canonicalBefore (insertBy compareItems x (sortBy compareItems xs))"
    using Cons by (intro sorted_insertBy) (simp_all add: set_sortBy)
  then show ?case by (simp add: sortBy_def)
qed

lemma filter_insertBy:
  "filter (\<lambda>z. rank z = r \<and> daysRemaining z = d) (insertBy compareItems x ys)
     = filter (\<lambda>z. rank z = r \<and> daysRemaining z = d) (x # ys)"
  by (induction ys) (auto simp: compareItems_def Let_def split: option.splits)

lemma filter_sortBy:
  "filter (\<lambda>z. rank z = r \<and> daysRemaining z = d) (sortBy compareItems xs)
     = filter (\<lambda>z. rank z = r \<and> daysRemaining z = d) xs"
proof (induction xs)
  case Nil
  show ?case by (simp add: sortBy_def)
next
  case (Cons x xs)
  have "filter (\<lambda>z. rank z = r \<and> daysRemaining z = d) (sortBy compareItems (x # xs))
      = filter (\<lambda>z. rank z = r \<and> daysRemaining z = d) (x # sortBy compareItems xs)"
    by (simp only: sortBy_def foldr.simps o_apply filter_insertBy)
  with Cons show ?case by simp
qed

text \<open>
  C9.  The rendered list is the input list in the canonical order: band rank
  ascending (expired 0, urgent 1, warning 2, safe 3, which is what \<open>rank\<close> computes),
  then \<open>daysRemaining\<close> ascending, and records with equal rank and equal
  \<open>daysRemaining\<close> stay in their input order.  It holds whenever the list can be
  rendered at all (no record has an invalid expiry date) and \<open>now\<close> is a time value
  of the clock.
\<close>

theorem data_in_canonical_order:
  assumes "mapE (withCountdown now) vs = Inr items" and "\<bar>now\<bar> \<le> 8640000000000000"
  shows "data now vs = Inr (sortBy compareItems items)
     \<and> mset (sortBy compareItems items) = mset items
     \<and> sorted_wrt canonicalBefore (sortBy compareItems items)
     \<and> (\<forall>r d. filter (\<lambda>x. rank x = r \<and> daysRemaining x = d) (sortBy compareItems items)
               = filter (\<lambda>x. rank x = r \<and> daysRemaining x = d) items)
     \<and> (\<forall>x. rank x = bandRank (status (daysRemaining x)))"
proof -
  have fin: "\<forall>y\<in>set items. \<exists>n. daysRemaining y = Some n"
  proof
    fix y assume "y \<in> set items"
    then obtain v where "withCountdown now v = Inr y"
      using mapE_Inr [OF assms(1)] by blast
    then show "\<exists>n. daysRemaining y = Some n"
      using assms(2) by (rule withCountdown_finite)
  qed
  have 1: "data now vs = Inr (sortBy compareItems items)"
    by (simp add: data_def assms(1))
  have 2: "mset (sortBy compareItems items) = mset items"
    by (rule mset_sortBy)
  have 3: "sorted_wrt canonicalBefore (sortBy compareItems items)"
    by (rule sorted_sortBy [OF fin])
  have 4: "\<forall>r d. filter (\<lambda>x. rank x = r \<and> daysRemaining x = d) (sortBy compareItems items)
               = filter (\<lambda>x. rank x = r \<and> daysRemaining x = d) items"
    by (simp add: filter_sortBy)
  have 5: "\<forall>x. rank x = bandRank (status (daysRemaining x))"
    by (simp add: rank_bandRank)
  show ?thesis
    by (intro conjI 1 2 3 4 5)
qed

lemma listedVisas_items:
  "mapE (withCountdown 1767225600000) listedVisas
     = Inr (projr (mapE (withCountdown 1767225600000) listedVisas))"
  by code_simp

lemma listedVisas_sorted:
  "map visa_id (sortBy compareItems (projr (mapE (withCountdown 1767225600000) listedVisas)))
     = [''visa_4'', ''visa_2'', ''visa_1'', ''visa_3'']
   \<and> map daysRemaining (sortBy compareItems (projr (mapE (withCountdown 1767225600000) listedVisas)))
     = [Some (- 335), Some 3, Some 30, Some 30]"
  by code_simp

theorem data_in_canonical_order_witness:
  "mapE (withCountdown 1767225600000) listedVisas
     = Inr (projr (mapE (withCountdown 1767225600000) listedVisas))
   \<and> \<bar>1767225600000 :: int\<bar> \<le> 8640000000000000
   \<and> data 1767225600000 listedVisas
      = Inr (sortBy compareItems (projr (mapE (withCountdown 1767225600000) listedVisas)))
   \<and> sorted_wrt canonicalBefore
       (sortBy compareItems (projr (mapE (withCountdown 1767225600000) listedVisas)))
   \<and> map visa_id (sortBy compareItems (projr (mapE (withCountdown 1767225600000) listedVisas)))
     = [''visa_4'', ''visa_2'', ''visa_1'', ''visa_3'']
   \<and> map daysRemaining (sortBy compareItems (projr (mapE (withCountdown 1767225600000) listedVisas)))
     = [Some (- 335), Some 3, Some 30, Some 30]"
proof -
  have b: "\<bar>1767225600000 :: int\<bar> \<le> 8640000000000000" by simp
  show ?thesis
    using data_in_canonical_order [OF listedVisas_items b] listedVisas_items listedVisas_sorted
    by simp
qed

end
